theory Spec2Isabelle
  imports Main "HOL-Library.Word"
begin

unbundle bit_operations_syntax

section \<open>Bytes and frames\<close>

text \<open>
  A \<open>Uint8Array\<close> is a list of bytes. Storing a JavaScript number into a byte array keeps
  the number modulo 256 (\<open>u8\<close>); a store at an index outside the array is ignored, which is
  what \<open>xs[i := v]\<close> does. All numbers handled here are integers.
\<close>

type_synonym byte = "8 word"
type_synonym frame = "byte list"

definition u8 :: "int \<Rightarrow> byte" where
  "u8 n = word_of_int n"

subsection \<open>The protocol module\<close>

text \<open>
  The operations import their constants, tables and frame helpers from the module
  \<open>./protocol\<close>, whose text is not among the sources. Its parts are modelled from the
  specification (sections 3, 4.1, 4.2 and 6) and the protocol notes of the repository.
\<close>

text \<open>Modelled from the spec: the constants of the wire format (module \<open>./protocol\<close>).\<close>

definition REPORT_ID :: byte where "REPORT_ID = 0x13"
definition CMD_READ :: byte where "CMD_READ = 0x44"
definition CMD_WRITE :: byte where "CMD_WRITE = 0x04"
definition CMD_COLOR :: byte where "CMD_COLOR = 0x09"
definition CMD_PERKEY :: byte where "CMD_PERKEY = 0x02"
definition CMD_SAVE :: byte where "CMD_SAVE = 0x0A"
definition SUBCMD_CONFIG :: byte where "SUBCMD_CONFIG = 0x0A"
definition SUBCMD_PALETTE :: byte where "SUBCMD_PALETTE = 0x25"
definition SUBCMD_PERKEY :: byte where "SUBCMD_PERKEY = 0x1C"
definition SUBCMD_CONFIRM :: byte where "SUBCMD_CONFIRM = 0x01"
definition SELF_DEFINE_EFFECT :: int where "SELF_DEFINE_EFFECT = 21"

text \<open>
  Modelled from the spec: \<open>checksum\<close> of module \<open>./protocol\<close>, the sum of the first 19
  bytes modulo 256.
\<close>

definition checksum :: "frame \<Rightarrow> byte" where
  "checksum f = sum_list (take 19 f)"

text \<open>
  Modelled from the spec: \<open>buildFrame\<close> of module \<open>./protocol\<close>. The payload is padded
  with zeros to 15 bytes and the checksum of bytes 0 to 18 is appended; a payload longer
  than 15 bytes is rejected (\<open>None\<close>).
\<close>

definition buildFrame :: "byte \<Rightarrow> byte \<Rightarrow> nat \<Rightarrow> byte list \<Rightarrow> frame option" where
  "buildFrame command subcommand sequence payload =
     (if length payload > 15 then None
      else let body = [REPORT_ID, command, subcommand, of_nat sequence]
                        @ payload @ replicate (15 - length payload) 0
           in Some (body @ [checksum body]))"

text \<open>
  Modelled from the spec: \<open>encodeSpeedByte\<close> of module \<open>./protocol\<close>. The high nibble is
  the speed, the low nibble is 7 for colorful and 0 for single-color. The result is a byte.
\<close>

definition encodeSpeedByte :: "int \<Rightarrow> bool \<Rightarrow> byte" where
  "encodeSpeedByte spd cf = push_bit 4 (u8 spd) OR (if cf then 0x07 else 0x00)"

text \<open>
  Modelled from the spec: \<open>decodeSpeedByte\<close> of module \<open>./protocol\<close>, the inverse reading:
  the speed is the high nibble, and the byte is colorful when its low nibble is 7.
\<close>

definition decodeSpeedByte :: "byte \<Rightarrow> int \<times> bool" where
  "decodeSpeedByte b = (uint (drop_bit 4 b), b AND 0x0F = 0x07)"

text \<open>
  Modelled from the spec: the keys of the table \<open>EFFECTS\<close> of module \<open>./protocol\<close>:
  the 19 effect numbers 1 to 18 and 21.
\<close>

definition EFFECTS :: "int set" where
  "EFFECTS = {1..18} \<union> {21}"

text \<open>
  Modelled from the spec: \<open>effectTableLoc\<close> of module \<open>./protocol\<close>, the config fragment
  and the byte offset of the parameter pair of an effect. Effect 21 has no entry.
\<close>

definition effectTableLoc :: "int \<Rightarrow> (nat \<times> nat) option" where
  "effectTableLoc n =
     (if 1 \<le> n \<and> n \<le> 6 then Some (4, 7 + nat (n - 1) * 2)
      else if 7 \<le> n \<and> n \<le> 13 then Some (5, 5 + nat (n - 7) * 2)
      else if 14 \<le> n \<and> n \<le> 18 then Some (6, 5 + nat (n - 14) * 2)
      else None)"

section \<open>The transport\<close>

text \<open>
  The device handle is the state every operation threads through: the frames sent so far,
  and what the coming calls of \<open>readReport\<close> will deliver, each either an inbound report
  (the report id followed by the data) or \<open>None\<close> for a wait that times out. When nothing
  is left every wait times out. The progress lines written to the log do not influence
  the frames and are left out; a logged failure is the outcome of the operation.
\<close>

record device =
  sent :: "frame list"
  inbox :: "frame option list"

definition sendReport :: "device \<Rightarrow> frame \<Rightarrow> device" where
  "sendReport dev data = dev\<lparr>sent := sent dev @ [data]\<rparr>"

definition readReport :: "device \<Rightarrow> frame option \<times> device" where
  "readReport dev = (case inbox dev of [] \<Rightarrow> (None, dev) | r # rs \<Rightarrow> (r, dev\<lparr>inbox := rs\<rparr>))"

definition txRx :: "device \<Rightarrow> frame \<Rightarrow> frame option \<times> device" where
  "txRx dev frame = readReport (sendReport dev frame)"

fun txBulk :: "device \<Rightarrow> frame list \<Rightarrow> frame list \<times> device" where
  "txBulk dev [] = ([], dev)"
| "txBulk dev (frame # frames) =
     (case txRx dev frame of (echo, dev1) \<Rightarrow>
        (case txBulk dev1 frames of (echoes, dev2) \<Rightarrow>
           ((case echo of None \<Rightarrow> echoes | Some e \<Rightarrow> e # echoes), dev2)))"

section \<open>Reading the configuration\<close>

text \<open>
  The polling loop of \<open>readConfig\<close>; the first argument counts the attempts that remain.
  A timeout leaves the loop; a report is kept when it has at least 20 bytes, the report
  id, the READ command and the CONFIG subcommand, and its sequence byte is below 10.
\<close>

fun pollConfig :: "nat \<Rightarrow> device \<Rightarrow> frame option list \<Rightarrow> frame option list \<times> device" where
  "pollConfig 0 dev config = (config, dev)"
| "pollConfig (Suc k) dev config =
     (case readReport dev of
        (None, dev1) \<Rightarrow> (config, dev1)
      | (Some r, dev1) \<Rightarrow>
          pollConfig k dev1
            (if length r \<ge> 20 \<and> r ! 0 = REPORT_ID \<and> r ! 1 = CMD_READ \<and> r ! 2 = SUBCMD_CONFIG
             then (let seq = unat (r ! 3) in if seq < 10 then config[seq := Some r] else config)
             else config))"

definition readConfig :: "device \<Rightarrow> (frame option list \<times> device) option" where
  "readConfig dev =
     (case buildFrame CMD_READ SUBCMD_CONFIRM 0 (replicate 15 0) of
        None \<Rightarrow> None
      | Some readFrame \<Rightarrow> Some (pollConfig 12 (sendReport dev readFrame) (replicate 10 None)))"

definition gotConfig :: "frame option list \<Rightarrow> bool" where
  "gotConfig config = list_all (\<lambda>c. c \<noteq> None) config"

section \<open>The operations\<close>

text \<open>
  The templates of module \<open>./protocol\<close> are constants whose values are not among the
  sources; the operations take them as a parameter.
\<close>

record templates =
  CFG_TEMPLATE :: "byte list list"
  PAL_TEMPLATE :: "byte list list"
  PAL_ZEROS :: "byte list"
  PAL_LAST :: "byte list"

record EffectOptions =
  colorRgb :: "(int \<times> int \<times> int) option"
  colorful :: bool
  speed :: "int option"
  brightness :: "int option"

datatype outcome = Done | UnknownEffect | ReadError | Rejected

text \<open>
  \<open>Done\<close>: the operation ran to its end. \<open>UnknownEffect\<close> and \<open>ReadError\<close>: the operation
  logged the failure and returned. \<open>Rejected\<close>: \<open>buildFrame\<close> rejected a payload.
\<close>

definition saveFrame :: "frame option" where
  "saveFrame = buildFrame CMD_SAVE SUBCMD_CONFIRM 0 ([0x04, 0x07] @ replicate 13 0)"

definition savePhase :: "device \<Rightarrow> outcome \<times> device" where
  "savePhase dev = (case saveFrame of None \<Rightarrow> (Rejected, dev) | Some f \<Rightarrow> (Done, snd (txRx dev f)))"

subsection \<open>setEffect\<close>

text \<open>The rewritten speed byte of the parameter pair, as both branches of \<open>setEffect\<close> compute it.\<close>

definition newSpeedByte :: "EffectOptions \<Rightarrow> byte \<Rightarrow> byte" where
  "newSpeedByte opts b =
     (let cur = decodeSpeedByte b
      in encodeSpeedByte (case speed opts of Some s \<Rightarrow> s | None \<Rightarrow> fst cur)
           (if colorful opts then True else (colorRgb opts = None \<and> snd cur)))"

text \<open>The write frame for fragment \<open>seq\<close> built from the fragment \<open>r\<close> that was read.\<close>

definition effectFrameRead :: "int \<Rightarrow> EffectOptions \<Rightarrow> nat \<Rightarrow> frame \<Rightarrow> frame" where
  "effectFrameRead effectNum opts seq r =
     (let f = r[1 := CMD_WRITE];
          f = (if seq = 0
               then f[8 := 0x01, 14 := 0x00, 15 := u8 effectNum,
                      17 := (if colorRgb opts \<noteq> None \<or> colorful opts then 0x01 else 0x03)]
               else f);
          f = (case effectTableLoc effectNum of
                 None \<Rightarrow> f
               | Some (tgtSeq, tgtOff) \<Rightarrow>
                   if seq = tgtSeq
                   then (let f1 = (case brightness opts of Some b \<Rightarrow> f[tgtOff := u8 b] | None \<Rightarrow> f)
                         in f1[tgtOff + 1 := newSpeedByte opts (f1 ! (tgtOff + 1))])
                   else f)
      in f[19 := checksum f])"

text \<open>The write frame for fragment \<open>seq\<close> built from the template.\<close>

definition effectFrameTemplate :: "templates \<Rightarrow> int \<Rightarrow> EffectOptions \<Rightarrow> nat \<Rightarrow> frame option" where
  "effectFrameTemplate tm effectNum opts seq =
     (let p = CFG_TEMPLATE tm ! seq;
          p = (if seq = 0
               then p[4 := 0x01, 10 := 0x00, 11 := u8 effectNum,
                      13 := (if colorRgb opts \<noteq> None \<or> colorful opts then 0x01 else 0x03)]
               else p);
          p = (case effectTableLoc effectNum of
                 None \<Rightarrow> p
               | Some (tgtSeq, tgtOff) \<Rightarrow>
                   if seq = tgtSeq
                   then (let payOff = tgtOff - 4;
                             p1 = (case brightness opts of Some b \<Rightarrow> p[payOff := u8 b] | None \<Rightarrow> p)
                         in p1[payOff + 1 := newSpeedByte opts (p1 ! (payOff + 1))])
                   else p)
      in buildFrame CMD_WRITE SUBCMD_CONFIG seq p)"

definition effectWriteFrames ::
  "templates \<Rightarrow> int \<Rightarrow> EffectOptions \<Rightarrow> frame option list \<Rightarrow> frame list option" where
  "effectWriteFrames tm effectNum opts config =
     those (map (\<lambda>seq. if gotConfig config
                        then Some (effectFrameRead effectNum opts seq (the (config ! seq)))
                        else effectFrameTemplate tm effectNum opts seq) [0..<10])"

definition paletteFrames :: "templates \<Rightarrow> (int \<times> int \<times> int) option \<Rightarrow> frame list option" where
  "paletteFrames tm rgb =
     those (map (\<lambda>i. let payload = (if i < length (PAL_TEMPLATE tm) then PAL_TEMPLATE tm ! i
                                     else if i = 36 then PAL_LAST tm else PAL_ZEROS tm);
                          payload = (case rgb of
                                       None \<Rightarrow> payload
                                     | Some (r, g, b) \<Rightarrow>
                                         if i = 1
                                         then payload[8 := u8 r, 9 := u8 g, 10 := u8 b, 12 := 0xff]
                                         else payload)
                      in buildFrame CMD_COLOR SUBCMD_PALETTE i payload) [0..<37])"

definition setEffect :: "templates \<Rightarrow> device \<Rightarrow> int \<Rightarrow> EffectOptions \<Rightarrow> outcome \<times> device" where
  "setEffect tm dev effectNum opts =
     (if effectNum \<notin> EFFECTS then (UnknownEffect, dev)
      else case readConfig dev of
        None \<Rightarrow> (Rejected, dev)
      | Some (config, dev1) \<Rightarrow>
          (case effectWriteFrames tm effectNum opts config of
             None \<Rightarrow> (Rejected, dev1)
           | Some writeFrames \<Rightarrow>
               (let dev2 = snd (txBulk dev1 writeFrames)
                in case paletteFrames tm (colorRgb opts) of
                     None \<Rightarrow> (Rejected, dev2)
                   | Some palFrames \<Rightarrow> savePhase (snd (txBulk dev2 palFrames)))))"

subsection \<open>applyPerKey\<close>

definition selfDefineFrameRead :: "nat \<Rightarrow> frame \<Rightarrow> frame" where
  "selfDefineFrameRead seq r =
     (let f = r[1 := CMD_WRITE];
          f = (if seq = 0 then f[8 := 0x01, 14 := 0x00, 15 := u8 SELF_DEFINE_EFFECT, 17 := 0x01]
               else f)
      in f[19 := checksum f])"

definition selfDefineFrameTemplate :: "templates \<Rightarrow> nat \<Rightarrow> frame option" where
  "selfDefineFrameTemplate tm seq =
     (let p = CFG_TEMPLATE tm ! seq;
          p = (if seq = 0 then p[4 := 0x01, 10 := 0x00, 11 := u8 SELF_DEFINE_EFFECT, 13 := 0x01]
               else p)
      in buildFrame CMD_WRITE SUBCMD_CONFIG seq p)"

definition selfDefineWriteFrames :: "templates \<Rightarrow> frame option list \<Rightarrow> frame list option" where
  "selfDefineWriteFrames tm config =
     those (map (\<lambda>seq. if gotConfig config
                        then Some (selfDefineFrameRead seq (the (config ! seq)))
                        else selfDefineFrameTemplate tm seq) [0..<10])"

text \<open>
  The color map is the list of the entries of \<open>keyColors\<close> in the order \<open>Object.entries\<close>
  gives them, the key being the integer LED index that \<open>parseInt\<close> reads back.
\<close>

type_synonym keyColors = "(int \<times> (int \<times> int \<times> int)) list"

definition paintKey ::
  "byte list \<times> byte list \<times> byte list \<Rightarrow> int \<times> (int \<times> int \<times> int)
     \<Rightarrow> byte list \<times> byte list \<times> byte list" where
  "paintKey planes entry =
     (case planes of (R, G, B) \<Rightarrow>
        (case entry of (i, (r, g, b)) \<Rightarrow>
           if i \<ge> 0 \<and> i < 126
           then (R[nat i := u8 r], G[nat i := u8 g], B[nat i := u8 b])
           else (R, G, B)))"

definition colorPlanes :: "keyColors \<Rightarrow> byte list \<times> byte list \<times> byte list" where
  "colorPlanes kc = foldl paintKey (replicate 126 0, replicate 126 0, replicate 126 0) kc"

definition planePayloads :: "byte list \<Rightarrow> byte list list" where
  "planePayloads plane = map (\<lambda>s. 0x0e # map (\<lambda>j. plane ! (s * 14 + j)) [0..<14]) [0..<9]"

definition trailer :: "byte list" where
  "trailer = [0x06, 0x00, 0x00, 0x5a, 0xa5] @ replicate 10 0"

definition perKeyFrames :: "keyColors \<Rightarrow> frame list option" where
  "perKeyFrames kc =
     (case colorPlanes kc of (R, G, B) \<Rightarrow>
        those (map (\<lambda>(seq, payload). buildFrame CMD_PERKEY SUBCMD_PERKEY seq payload)
                 (enumerate 0 (concat (map planePayloads [R, G, B]) @ [trailer]))))"

definition applyPerKey :: "templates \<Rightarrow> device \<Rightarrow> keyColors \<Rightarrow> outcome \<times> device" where
  "applyPerKey tm dev kc =
     (case readConfig dev of
        None \<Rightarrow> (Rejected, dev)
      | Some (config, dev1) \<Rightarrow>
          (case selfDefineWriteFrames tm config of
             None \<Rightarrow> (Rejected, dev1)
           | Some writeFrames \<Rightarrow>
               (let dev2 = snd (txBulk dev1 writeFrames)
                in case perKeyFrames kc of
                     None \<Rightarrow> (Rejected, dev2)
                   | Some perkeyFrames \<Rightarrow> savePhase (snd (txBulk dev2 perkeyFrames)))))"

text \<open>
  Reading the planes back, as the protocol notes lay them out: the value of LED \<open>i\<close> in
  plane \<open>k\<close> is byte \<open>5 + i mod 14\<close> of frame \<open>9 * k + i div 14\<close>.
\<close>

definition decodePerKey :: "frame list \<Rightarrow> nat \<Rightarrow> byte \<times> byte \<times> byte" where
  "decodePerKey frames i =
     (frames ! (i div 14) ! (5 + i mod 14),
      frames ! (9 + i div 14) ! (5 + i mod 14),
      frames ! (18 + i div 14) ! (5 + i mod 14))"

subsection \<open>setSleepTimer\<close>

definition sleepFrame :: "int \<Rightarrow> nat \<Rightarrow> frame \<Rightarrow> frame" where
  "sleepFrame sleepByte s r =
     (let f = r[1 := CMD_WRITE];
          f = (if s = 0 then f[8 := 0x01] else f);
          f = (if s = 1 then f[15 := u8 sleepByte] else f)
      in f[19 := checksum f])"

definition sleepWriteFrames :: "int \<Rightarrow> frame option list \<Rightarrow> frame list" where
  "sleepWriteFrames sleepByte config =
     map (\<lambda>s. sleepFrame sleepByte s (the (config ! s))) [0..<10]"

definition setSleepTimer :: "device \<Rightarrow> int \<Rightarrow> outcome \<times> device" where
  "setSleepTimer dev minutes =
     (let sleepByte = minutes * 2
      in case readConfig dev of
           None \<Rightarrow> (Rejected, dev)
         | Some (config, dev1) \<Rightarrow>
             if \<not> gotConfig config then (ReadError, dev1)
             else savePhase (snd (txBulk dev1 (sleepWriteFrames sleepByte config))))"

section \<open>Example data\<close>

text \<open>A device that answers the read with ten fragments; the apply flag of fragment 0 is set.\<close>

definition exFragment :: "nat \<Rightarrow> frame" where
  "exFragment seq =
     [0x13, 0x44, 0x0A, of_nat seq, 0x0E, 0x00, 0x04, 0x47, 0x01, 0x00,
      0x00, 0x04, 0x47, 0x07, 0x01, 0x00, 0x20, 0x03, 0x00, 0x00]"

definition exDevice :: device where
  "exDevice = \<lparr>sent = [], inbox = map (\<lambda>s. Some (exFragment s)) [0..<10]\<rparr>"

definition exTemplates :: templates where
  "exTemplates =
     \<lparr>CFG_TEMPLATE = replicate 10 ([0x0E, 0x00, 0x04, 0x47, 0x01] @ replicate 10 0x00),
      PAL_TEMPLATE = replicate 2 (replicate 15 0x00),
      PAL_ZEROS = replicate 15 0x00,
      PAL_LAST = [0x5a, 0xa5] @ replicate 13 0x00\<rparr>"

definition exOptions :: EffectOptions where
  "exOptions = \<lparr>colorRgb = Some (255, 0, 0), colorful = False, speed = None, brightness = Some 2\<rparr>"

section \<open>Predicates used in the statements\<close>

text \<open>What \<open>readConfig\<close> requires of a report before it stores it in slot \<open>i\<close>.\<close>

definition wfFragment :: "nat \<Rightarrow> frame \<Rightarrow> bool" where
  "wfFragment i r =
     (length r \<ge> 20 \<and> r ! 0 = REPORT_ID \<and> r ! 1 = CMD_READ \<and> r ! 2 = SUBCMD_CONFIG
        \<and> unat (r ! 3) = i)"

definition wfConfig :: "frame option list \<Rightarrow> bool" where
  "wfConfig config =
     (length config = 10 \<and> (\<forall>i<10. \<forall>r. config ! i = Some r \<longrightarrow> wfFragment i r))"

text \<open>The frames that open and close a transaction, byte by byte.\<close>

definition READ_FRAME :: frame where
  "READ_FRAME = [0x13, 0x44, 0x01, 0x00] @ replicate 15 0x00 @ [0x58]"

definition SAVE_FRAME :: frame where
  "SAVE_FRAME = [0x13, 0x0A, 0x01, 0x00, 0x04, 0x07] @ replicate 13 0x00 @ [0x29]"

section \<open>What a read keeps\<close>

text \<open>Reading a byte of a report that may be too short to have it.\<close>

definition byteAt :: "frame \<Rightarrow> nat \<Rightarrow> byte option" where
  "byteAt r i = (if i < length r then Some (r ! i) else None)"

text \<open>
  The reports that the polling loop of \<open>readConfig\<close> gets to see: those delivered before
  the first wait that times out, among the first 12 waits.
\<close>

definition received :: "frame option list \<Rightarrow> frame list" where
  "received inb = map the (takeWhile (\<lambda>x. x \<noteq> None) (take 12 inb))"

text \<open>
  The rule of the specification's sentence on \<open>readConfig\<close>: a fragment is kept when
  its command is READ and its subcommand is CONFIG.
\<close>

definition keptAsStated :: "frame \<Rightarrow> bool" where
  "keptAsStated r = (byteAt r 1 = Some CMD_READ \<and> byteAt r 2 = Some SUBCMD_CONFIG)"

text \<open>The same rule with the two further checks that the code makes.\<close>

definition keptByCode :: "frame \<Rightarrow> bool" where
  "keptByCode r = (length r \<ge> 20 \<and> byteAt r 0 = Some REPORT_ID \<and> keptAsStated r)"

text \<open>
  The configuration that a rule for keeping describes: slot \<open>i\<close>, for \<open>i\<close> from 0 to 9,
  holds the last kept report whose sequence byte is \<open>i\<close>, and nothing when there is none.
  A kept report with another sequence byte has no slot.
\<close>

definition slotOf :: "(frame \<Rightarrow> bool) \<Rightarrow> frame list \<Rightarrow> nat \<Rightarrow> frame option" where
  "slotOf keep rs i =
     (let hits = filter (\<lambda>r. keep r \<and> map_option unat (byteAt r 3) = Some i) rs
      in if hits = [] then None else Some (last hits))"

definition slots :: "(frame \<Rightarrow> bool) \<Rightarrow> frame list \<Rightarrow> frame option list" where
  "slots keep rs = map (slotOf keep rs) [0..<10]"

text \<open>One step of the polling loop on the configuration.\<close>

definition storeReport :: "frame option list \<Rightarrow> frame \<Rightarrow> frame option list" where
  "storeReport config r =
     (if keptByCode r \<and> unat (r ! 3) < 10 then config[unat (r ! 3) := Some r] else config)"

text \<open>A report with the READ command and the CONFIG subcommand under another report id.\<close>

definition strayReport :: frame where
  "strayReport = [0x01, 0x44, 0x0A, 0x00] @ replicate 16 0x00"

definition strayDevice :: device where
  "strayDevice = \<lparr>sent = [], inbox = [Some strayReport]\<rparr>"

section \<open>Reading a color map\<close>

text \<open>
  The color of LED \<open>i\<close> in a color map: the triple of its entry (the last one, should
  the list name the index twice), and black when the map has no entry for it.
\<close>

definition colorAt :: "keyColors \<Rightarrow> nat \<Rightarrow> int \<times> int \<times> int" where
  "colorAt kc i = (case map_of (rev kc) (int i) of None \<Rightarrow> (0, 0, 0) | Some rgb \<Rightarrow> rgb)"

text \<open>The value of channel \<open>k\<close> (0 red, 1 green, 2 blue) of a triple.\<close>

definition channel :: "nat \<Rightarrow> int \<times> int \<times> int \<Rightarrow> int" where
  "channel k rgb = (case rgb of (r, g, b) \<Rightarrow> if k = 0 then r else if k = 1 then g else b)"

definition ledInRange :: "int \<times> (int \<times> int \<times> int) \<Rightarrow> bool" where
  "ledInRange entry = (0 \<le> fst entry \<and> fst entry < 126)"

text \<open>A color map whose channel values are bytes.\<close>

definition byteColors :: "keyColors \<Rightarrow> bool" where
  "byteColors kc =
     list_all (\<lambda>entry. case entry of (i, (r, g, b)) \<Rightarrow>
                 0 \<le> r \<and> r < 256 \<and> 0 \<le> g \<and> g < 256 \<and> 0 \<le> b \<and> b < 256) kc"

definition exKeyColors :: keyColors where
  "exKeyColors = [(0, (255, 0, 0)), (62, (0, 128, 7)), (125, (1, 2, 3))]"

text \<open>The 28 payloads of the per-key phase, in the order in which they are numbered.\<close>

definition payloadsOf :: "byte list \<Rightarrow> byte list \<Rightarrow> byte list \<Rightarrow> byte list list" where
  "payloadsOf R G B = planePayloads R @ planePayloads G @ planePayloads B @ [trailer]"

section \<open>The edits of setEffect\<close>

text \<open>The frame of \<open>effectFrameRead\<close> before its checksum is recomputed.\<close>

definition effectEdits :: "int \<Rightarrow> EffectOptions \<Rightarrow> nat \<Rightarrow> frame \<Rightarrow> frame" where
  "effectEdits effectNum opts seq r =
     (let f = r[1 := CMD_WRITE];
          f = (if seq = 0
               then f[8 := 0x01, 14 := 0x00, 15 := u8 effectNum,
                      17 := (if colorRgb opts \<noteq> None \<or> colorful opts then 0x01 else 0x03)]
               else f);
          f = (case effectTableLoc effectNum of
                 None \<Rightarrow> f
               | Some (tgtSeq, tgtOff) \<Rightarrow>
                   if seq = tgtSeq
                   then (let f1 = (case brightness opts of Some b \<Rightarrow> f[tgtOff := u8 b] | None \<Rightarrow> f)
                         in f1[tgtOff + 1 := newSpeedByte opts (f1 ! (tgtOff + 1))])
                   else f)
      in f)"

text \<open>Templates whose payloads \<open>buildFrame\<close> accepts: ten of them for the configuration.\<close>

definition wfTemplates :: "templates \<Rightarrow> bool" where
  "wfTemplates tm =
     (length (CFG_TEMPLATE tm) = 10
        \<and> list_all (\<lambda>p. length p \<le> 15) (CFG_TEMPLATE tm)
        \<and> list_all (\<lambda>p. length p \<le> 15) (PAL_TEMPLATE tm)
        \<and> length (PAL_ZEROS tm) \<le> 15 \<and> length (PAL_LAST tm) \<le> 15)"

text \<open>A device that does not answer.\<close>

definition silentDevice :: device where
  "silentDevice = \<lparr>sent = [], inbox = []\<rparr>"

section \<open>The speed byte\<close>

lemma speed_cases: "0 \<le> (s::int) \<Longrightarrow> s \<le> 4 \<Longrightarrow> s = 0 \<or> s = 1 \<or> s = 2 \<or> s = 3 \<or> s = 4"
  by arith

text \<open>
  C8. For every speed from 0 to 4 and both values of colorful, the encoded byte has the
  speed in its high nibble and 7 (colorful) or 0 (single-color) in its low nibble, and
  decoding it gives back the speed and the colorful flag.
\<close>

theorem speed_byte_round_trip:
  "0 \<le> s \<Longrightarrow> s \<le> 4 \<Longrightarrow>
   decodeSpeedByte (encodeSpeedByte s cf) = (s, cf)
   \<and> drop_bit 4 (encodeSpeedByte s cf) = u8 s
   \<and> encodeSpeedByte s cf AND 0x0F = (if cf then 0x07 else 0x00)"
proof -
  assume "0 \<le> s" "s \<le> 4"
  then have "s = 0 \<or> s = 1 \<or> s = 2 \<or> s = 3 \<or> s = 4" by (rule speed_cases)
  then show ?thesis
    by (cases cf) (auto simp: decodeSpeedByte_def encodeSpeedByte_def u8_def)
qed

theorem speed_byte_round_trip_witness:
  "(0::int) \<le> 3 \<and> (3::int) \<le> 4 \<and> decodeSpeedByte (encodeSpeedByte 3 True) = (3, True)
   \<and> encodeSpeedByte 3 True = 0x37"
  using speed_byte_round_trip [of 3 True] by (simp add: encodeSpeedByte_def u8_def)

section \<open>Frames and the transport\<close>

lemma buildFrame_Some:
  "length p \<le> 15 \<Longrightarrow>
   buildFrame c s q p =
     Some ([REPORT_ID, c, s, of_nat q] @ p @ replicate (15 - length p) 0
           @ [checksum ([REPORT_ID, c, s, of_nat q] @ p @ replicate (15 - length p) 0)])"
  by (simp add: buildFrame_def Let_def)

lemma readFrame_eq: "buildFrame CMD_READ SUBCMD_CONFIRM 0 (replicate 15 0) = Some READ_FRAME"
  by code_simp

lemma saveFrame_eq: "saveFrame = Some SAVE_FRAME"
  by code_simp

lemma sent_txRx: "sent (snd (txRx dev f)) = sent dev @ [f]"
  by (simp add: txRx_def readReport_def sendReport_def split: list.splits)

lemma snd_txBulk_Cons: "snd (txBulk dev (f # fs)) = snd (txBulk (snd (txRx dev f)) fs)"
  by (simp split: prod.splits)

lemma txBulk_sent: "sent (snd (txBulk dev fs)) = sent dev @ fs"
proof (induction fs arbitrary: dev)
  case Nil
  show ?case by simp
next
  case (Cons f fs)
  show ?case
    unfolding snd_txBulk_Cons by (simp add: Cons.IH sent_txRx)
qed

lemma savePhase_Done: "fst (savePhase dev) = Done"
  by (simp add: savePhase_def saveFrame_eq)

lemma savePhase_sent: "sent (snd (savePhase dev)) = sent dev @ [SAVE_FRAME]"
  by (simp add: savePhase_def saveFrame_eq sent_txRx)

section \<open>What a read delivers\<close>

lemma sent_readReport: "sent (snd (readReport dev)) = sent dev"
  by (simp add: readReport_def split: list.splits)

lemma pollConfig_sent: "sent (snd (pollConfig k dev cfg)) = sent dev"
proof (induction k arbitrary: dev cfg)
  case 0
  show ?case by simp
next
  case (Suc k)
  show ?case
  proof (cases "readReport dev")
    case (Pair r dev1)
    then have s: "sent dev1 = sent dev" using sent_readReport [of dev] by simp
    show ?thesis
      using Pair s by (cases r) (simp_all add: Suc.IH)
  qed
qed

lemma wfConfig_update:
  "wfConfig config \<Longrightarrow> wfFragment i r \<Longrightarrow> i < 10 \<Longrightarrow> wfConfig (config[i := Some r])"
  by (auto simp: wfConfig_def nth_list_update)

lemma pollConfig_wf: "wfConfig cfg \<Longrightarrow> wfConfig (fst (pollConfig k dev cfg))"
proof (induction k arbitrary: dev cfg)
  case 0
  then show ?case by simp
next
  case (Suc k)
  show ?case
  proof (cases "readReport dev")
    case (Pair r dev1)
    show ?thesis
    proof (cases r)
      case None
      with Pair Suc.prems show ?thesis by simp
    next
      case (Some x)
      have "wfConfig (if length x \<ge> 20 \<and> x ! 0 = REPORT_ID \<and> x ! 1 = CMD_READ \<and> x ! 2 = SUBCMD_CONFIG
             then (let seq = unat (x ! 3) in if seq < 10 then cfg[seq := Some x] else cfg)
             else cfg)"
        using Suc.prems by (auto simp: Let_def wfFragment_def intro!: wfConfig_update)
      then show ?thesis using Pair Some by (simp add: Suc.IH)
    qed
  qed
qed

lemma readConfig_Some:
  "readConfig dev = Some (pollConfig 12 (sendReport dev READ_FRAME) (replicate 10 None))"
  by (simp add: readConfig_def readFrame_eq)

lemma readConfig_wf: "readConfig dev = Some (config, dev1) \<Longrightarrow> wfConfig config"
proof -
  assume a: "readConfig dev = Some (config, dev1)"
  have "wfConfig (replicate 10 None)" by (simp add: wfConfig_def)
  then have "wfConfig (fst (pollConfig 12 (sendReport dev READ_FRAME) (replicate 10 None)))"
    by (rule pollConfig_wf)
  with a show ?thesis by (simp add: readConfig_Some)
qed

lemma readConfig_sent: "readConfig dev = Some (config, dev1) \<Longrightarrow> sent dev1 = sent dev @ [READ_FRAME]"
  using pollConfig_sent [of 12 "sendReport dev READ_FRAME" "replicate 10 None"]
  by (simp add: readConfig_Some sendReport_def)

lemma gotConfig_nth: "gotConfig config \<Longrightarrow> i < length config \<Longrightarrow> \<exists>r. config ! i = Some r"
  by (auto simp: gotConfig_def list_all_length)

lemma complete_fragment:
  "readConfig dev = Some (config, dev1) \<Longrightarrow> gotConfig config \<Longrightarrow> i < 10 \<Longrightarrow>
   \<exists>r. config ! i = Some r \<and> wfFragment i r"
proof -
  assume a: "readConfig dev = Some (config, dev1)" and g: "gotConfig config" and i: "i < 10"
  from a have w: "wfConfig config" by (rule readConfig_wf)
  then have "i < length config" using i by (simp add: wfConfig_def)
  with g obtain r where "config ! i = Some r" using gotConfig_nth by blast
  with w i show ?thesis by (auto simp: wfConfig_def)
qed

section \<open>The sleep timer\<close>

lemma uint_u8: "uint (u8 x) = x mod 256"
  unfolding u8_def by (simp only: uint_word_of_int) simp

lemma setSleepTimer_complete:
  assumes "readConfig dev = Some (config, dev1)" and "gotConfig config"
  shows "fst (setSleepTimer dev minutes) = Done"
    and "sent (snd (setSleepTimer dev minutes)) =
           sent dev @ [READ_FRAME] @ sleepWriteFrames (minutes * 2) config @ [SAVE_FRAME]"
  using assms readConfig_sent [OF assms(1)]
  by (simp_all add: setSleepTimer_def Let_def savePhase_Done savePhase_sent txBulk_sent)

lemma sleepWriteFrames_nth:
  "i < 10 \<Longrightarrow> sleepWriteFrames b config ! i = sleepFrame b i (the (config ! i))"
  by (simp add: sleepWriteFrames_def)

lemma length_sleepWriteFrames: "length (sleepWriteFrames b config) = 10"
  by (simp add: sleepWriteFrames_def)

lemma checksum_update_19: "checksum (f[19 := c]) = checksum f"
  by (simp add: checksum_def)

lemma sleepFrame_1:
  assumes "length r \<ge> 20"
  shows "length (sleepFrame b 1 r) = length r"
    and "sleepFrame b 1 r ! 15 = u8 b"
    and "sleepFrame b 1 r ! 1 = CMD_WRITE"
    and "sleepFrame b 1 r ! 19 = checksum (sleepFrame b 1 r)"
    and "\<forall>j<length r. j \<noteq> 1 \<and> j \<noteq> 15 \<and> j \<noteq> 19 \<longrightarrow> sleepFrame b 1 r ! j = r ! j"
  using assms by (simp_all add: sleepFrame_def Let_def checksum_update_19)

lemma exDevice_read:
  "readConfig exDevice =
     Some (map (\<lambda>s. Some (exFragment s)) [0..<10], \<lparr>sent = [READ_FRAME], inbox = []\<rparr>)"
  by code_simp

lemma exDevice_complete: "gotConfig (map (\<lambda>s. Some (exFragment s)) [0..<10])"
  by code_simp

lemma sibling_paths_clear_apply_flag:
  assumes "length r \<ge> 20"
  shows "effectFrameRead n opts 0 r ! 14 = 0x00"
    and "selfDefineFrameRead 0 r ! 14 = 0x00"
    and "sleepFrame b 0 r ! 14 = r ! 14"
proof -
  show "effectFrameRead n opts 0 r ! 14 = 0x00"
  proof (cases "effectTableLoc n")
    case None
    with assms show ?thesis by (simp add: effectFrameRead_def Let_def)
  next
    case (Some loc)
    then have "fst loc \<noteq> 0" by (auto simp: effectTableLoc_def split: if_splits)
    with Some assms show ?thesis by (cases loc) (simp add: effectFrameRead_def Let_def)
  qed
  show "selfDefineFrameRead 0 r ! 14 = 0x00"
    using assms by (simp add: selfDefineFrameRead_def Let_def)
  show "sleepFrame b 0 r ! 14 = r ! 14"
    using assms by (simp add: sleepFrame_def Let_def)
qed

text \<open>
  C1. The claim: every operation that queues a configuration read by \<open>readConfig\<close> for
  write (\<open>setEffect\<close>, \<open>applyPerKey\<close>, \<open>setSleepTimer\<close>) sends fragment 0 with the apply
  flag (offset 14) cleared, even when it was read as \<open>0x01\<close>. \<open>setSleepTimer\<close> does not:
  on the example device, whose fragment 0 is read with the flag set, the operation runs to
  its end and the first write frame still carries \<open>0x01\<close> at offset 14.
\<close>

theorem sleep_timer_keeps_apply_flag:
  "fst (setSleepTimer exDevice 10) = Done
     \<and> exFragment 0 ! 14 = 0x01
     \<and> sent (snd (setSleepTimer exDevice 10)) ! 1 ! 14 = 0x01"
  by code_simp

text \<open>
  C5, as stated: after \<open>setSleepTimer(10)\<close> on a configuration whose fragment 1 had
  \<open>0x00\<close> at offset 15, every byte of the fragment-1 write frame other than offset 15 and
  the checksum is the byte that was read. It fails at the command byte (offset 1), which
  is READ in what was read and WRITE in what is sent.
\<close>

theorem sleep_timer_command_byte_changes:
  "exFragment 1 ! 15 = 0x00
     \<and> sent (snd (setSleepTimer exDevice 10)) ! 2 ! 1 = 0x04
     \<and> exFragment 1 ! 1 = 0x44"
  by code_simp

text \<open>
  C5, amended: \<open>setSleepTimer(10)\<close> on a configuration that was read completely, with
  fragment 1 read as \<open>r\<close> (whatever its offset 15 held, \<open>0x00\<close> included), sends as the
  fragment-1 write frame (the third frame of the operation, after the read frame and
  fragment 0) a frame of the same length whose offset 15 is \<open>0x14\<close>, whose command byte
  is WRITE, whose offset 19 is the checksum recomputed over its first 19 bytes, and whose
  every other byte is the byte of \<open>r\<close>.
\<close>

theorem sleep_timer_ten_minutes:
  assumes "readConfig dev = Some (config, dev1)" and "gotConfig config"
    and "config ! 1 = Some r"
  shows "\<exists>w. sent (snd (setSleepTimer dev 10)) ! (length (sent dev) + 2) = w
           \<and> length w = length r \<and> w ! 15 = 0x14
           \<and> w ! 1 = CMD_WRITE \<and> w ! 19 = checksum w
           \<and> (\<forall>j<length r. j \<noteq> 1 \<and> j \<noteq> 15 \<and> j \<noteq> 19 \<longrightarrow> w ! j = r ! j)"
proof -
  from complete_fragment [OF assms(1,2), of 1] assms(3)
  have len: "length r \<ge> 20" by (auto simp: wfFragment_def)
  have "sent (snd (setSleepTimer dev 10)) ! (length (sent dev) + 2)
          = sleepWriteFrames 20 config ! 1"
    using setSleepTimer_complete(2) [OF assms(1,2), of 10]
    by (simp add: nth_append length_sleepWriteFrames)
  also have "\<dots> = sleepFrame 20 1 r"
    using assms(3) by (simp add: sleepWriteFrames_nth)
  finally have eq:
    "sent (snd (setSleepTimer dev 10)) ! (length (sent dev) + 2) = sleepFrame 20 1 r" .
  have "u8 20 = 0x14" by (simp add: u8_def)
  with sleepFrame_1 [OF len, of 20] eq show ?thesis by simp
qed

theorem sleep_timer_ten_minutes_witness:
  "exFragment 1 ! 15 = 0x00
     \<and> sent (snd (setSleepTimer exDevice 10)) ! 2 ! 15 = 0x14
     \<and> sent (snd (setSleepTimer exDevice 10)) ! 2 ! 4 = exFragment 1 ! 4"
proof -
  have f1: "map (\<lambda>s. Some (exFragment s)) [0..<10] ! 1 = Some (exFragment 1)"
    by code_simp
  have l: "length (exFragment 1) = 20" by (simp add: exFragment_def)
  have s: "length (sent exDevice) + 2 = 2" by (simp add: exDevice_def)
  have e: "exFragment 1 ! 15 = 0x00" by (simp add: exFragment_def)
  from sleep_timer_ten_minutes [OF exDevice_read exDevice_complete f1]
  have a: "sent (snd (setSleepTimer exDevice 10)) ! 2 ! 15 = 0x14"
    and b: "\<forall>j<20. j \<noteq> 1 \<and> j \<noteq> 15 \<and> j \<noteq> 19 \<longrightarrow>
              sent (snd (setSleepTimer exDevice 10)) ! 2 ! j = exFragment 1 ! j"
    unfolding s l by blast+
  from b have "sent (snd (setSleepTimer exDevice 10)) ! 2 ! 4 = exFragment 1 ! 4" by simp
  with a e show ?thesis by blast
qed

text \<open>
  C10. \<open>setSleepTimer\<close> does not validate its argument: for every integer \<open>minutes\<close>,
  when the read is complete the operation runs to its end, sending the read frame, the ten
  write frames and the save frame, and offset 15 of the fragment-1 write frame holds
  \<open>(2 * minutes) mod 256\<close>.
\<close>

theorem sleep_timer_any_minutes:
  assumes "readConfig dev = Some (config, dev1)" and "gotConfig config"
  shows "fst (setSleepTimer dev minutes) = Done
       \<and> sent (snd (setSleepTimer dev minutes))
           = sent dev @ [READ_FRAME] @ sleepWriteFrames (minutes * 2) config @ [SAVE_FRAME]
       \<and> length (sleepWriteFrames (minutes * 2) config) = 10
       \<and> uint (sleepWriteFrames (minutes * 2) config ! 1 ! 15) = (2 * minutes) mod 256"
proof -
  from complete_fragment [OF assms, of 1] obtain r where
    r: "config ! 1 = Some r" and len: "length r \<ge> 20" by (auto simp: wfFragment_def)
  have "sleepWriteFrames (minutes * 2) config ! 1 ! 15 = u8 (minutes * 2)"
    using r sleepFrame_1(2) [OF len] by (simp add: sleepWriteFrames_nth)
  then have "uint (sleepWriteFrames (minutes * 2) config ! 1 ! 15) = (2 * minutes) mod 256"
    by (simp only: uint_u8 mult.commute)
  with setSleepTimer_complete [OF assms, of minutes] length_sleepWriteFrames
  show ?thesis by simp
qed

theorem sleep_timer_any_minutes_witness:
  "fst (setSleepTimer exDevice 200) = Done
     \<and> length (sent (snd (setSleepTimer exDevice 200))) = 12
     \<and> uint (sleepWriteFrames (200 * 2) (map (\<lambda>s. Some (exFragment s)) [0..<10]) ! 1 ! 15) = 144"
proof -
  from sleep_timer_any_minutes [OF exDevice_read exDevice_complete, of 200]
  show ?thesis by (simp add: exDevice_def)
qed

section \<open>The read phase\<close>

lemma keptByCode_iff:
  "keptByCode r \<longleftrightarrow> length r \<ge> 20 \<and> r ! 0 = REPORT_ID \<and> r ! 1 = CMD_READ \<and> r ! 2 = SUBCMD_CONFIG"
  by (auto simp: keptByCode_def keptAsStated_def byteAt_def)

lemma pollConfig_Suc_store:
  "pollConfig (Suc k) dev config =
     (case readReport dev of
        (None, dev1) \<Rightarrow> (config, dev1)
      | (Some r, dev1) \<Rightarrow> pollConfig k dev1 (storeReport config r))"
  by (simp add: storeReport_def keptByCode_iff Let_def split: prod.splits option.splits)

lemma pollConfig_foldl:
  "fst (pollConfig k dev cfg) =
     foldl storeReport cfg (map the (takeWhile (\<lambda>x. x \<noteq> None) (take k (inbox dev))))"
proof (induction k arbitrary: dev cfg)
  case 0
  show ?case by simp
next
  case (Suc k)
  show ?case
  proof (cases "inbox dev")
    case Nil
    then show ?thesis by (simp add: pollConfig_Suc_store readReport_def del: pollConfig.simps)
  next
    case (Cons x xs)
    show ?thesis
    proof (cases x)
      case None
      with Cons show ?thesis by (simp add: pollConfig_Suc_store readReport_def del: pollConfig.simps)
    next
      case (Some r)
      with Cons show ?thesis
        by (simp add: pollConfig_Suc_store readReport_def Suc.IH del: pollConfig.simps)
    qed
  qed
qed

lemma length_storeReport: "length (storeReport cfg r) = length cfg"
  by (simp add: storeReport_def)

lemma length_foldl_storeReport: "length (foldl storeReport cfg rs) = length cfg"
  by (induction rs arbitrary: cfg) (simp_all add: length_storeReport)

lemma slotOf_snoc:
  "slotOf keep (rs @ [r]) i =
     (if keep r \<and> map_option unat (byteAt r 3) = Some i then Some r else slotOf keep rs i)"
  by (simp add: slotOf_def Let_def)

lemma storeReport_nth:
  "length cfg = 10 \<Longrightarrow> i < 10 \<Longrightarrow>
   storeReport cfg r ! i =
     (if keptByCode r \<and> map_option unat (byteAt r 3) = Some i then Some r else cfg ! i)"
  by (auto simp: storeReport_def nth_list_update keptByCode_def byteAt_def)

lemma foldl_storeReport_nth:
  "i < 10 \<Longrightarrow> foldl storeReport (replicate 10 None) rs ! i = slotOf keptByCode rs i"
proof (induction rs rule: rev_induct)
  case Nil
  then show ?case by (simp add: slotOf_def)
next
  case (snoc r rs)
  have len: "length (foldl storeReport (replicate 10 None) rs) = 10"
    by (simp add: length_foldl_storeReport)
  have "foldl storeReport (replicate 10 None) (rs @ [r]) ! i
          = storeReport (foldl storeReport (replicate 10 None) rs) r ! i"
    by simp
  also have "\<dots> = (if keptByCode r \<and> map_option unat (byteAt r 3) = Some i then Some r
                     else foldl storeReport (replicate 10 None) rs ! i)"
    using len snoc.prems by (rule storeReport_nth)
  also have "\<dots> = slotOf keptByCode (rs @ [r]) i"
    using snoc by (auto simp: slotOf_snoc)
  finally show ?case .
qed

lemma foldl_storeReport_slots:
  "foldl storeReport (replicate 10 None) rs = slots keptByCode rs"
  by (rule nth_equalityI) (simp_all add: length_foldl_storeReport slots_def foldl_storeReport_nth)

lemma gotConfig_card:
  assumes "length cfg = 10"
  shows "\<not> gotConfig cfg \<longleftrightarrow> card {i. i < 10 \<and> cfg ! i \<noteq> None} < 10"
proof
  assume "\<not> gotConfig cfg"
  then obtain i where i: "i < 10" "cfg ! i = None"
    using assms by (auto simp: gotConfig_def list_all_length)
  have "{i. i < 10 \<and> cfg ! i \<noteq> None} \<subseteq> {..<10}"
    by (rule subsetI) simp
  moreover have "i \<in> {..<10}" using i by simp
  moreover have "i \<notin> {i. i < 10 \<and> cfg ! i \<noteq> None}" using i by simp
  ultimately have "{i. i < 10 \<and> cfg ! i \<noteq> None} \<subset> {..<10}" by blast
  then have "card {i. i < 10 \<and> cfg ! i \<noteq> None} < card {..<(10::nat)}"
    by (intro psubset_card_mono) simp_all
  then show "card {i. i < 10 \<and> cfg ! i \<noteq> None} < 10" by simp
next
  assume c: "card {i. i < 10 \<and> cfg ! i \<noteq> None} < 10"
  show "\<not> gotConfig cfg"
  proof
    assume "gotConfig cfg"
    then have "\<forall>i<10. cfg ! i \<noteq> None"
      using assms by (simp add: gotConfig_def list_all_length)
    then have "{i. i < 10 \<and> cfg ! i \<noteq> None} = {..<10}"
      by (intro set_eqI) (simp, blast)
    with c show False by simp
  qed
qed

text \<open>
  C3, amended: \<open>readConfig\<close> sends one frame, READ/CONFIRM with sequence 0 and an
  all-zero payload, then looks at the reports delivered before the first timeout among at
  most 12 waits. It keeps exactly those that have at least 20 bytes, the report id
  \<open>0x13\<close>, the READ command and the CONFIG subcommand, each under its sequence byte: a
  sequence outside 0 to 9 has no slot, a later report with the same sequence replaces the
  earlier one. The result is incomplete exactly when fewer than 10 slots are filled.
\<close>

theorem readConfig_keeps:
  "\<exists>cfg dev1. readConfig dev = Some (cfg, dev1)
      \<and> sent dev1 = sent dev @ [READ_FRAME]
      \<and> cfg = slots keptByCode (received (inbox dev))
      \<and> length cfg = 10
      \<and> (\<not> gotConfig cfg \<longleftrightarrow> card {i. i < 10 \<and> cfg ! i \<noteq> None} < 10)"
proof -
  obtain cfg dev1 where p: "pollConfig 12 (sendReport dev READ_FRAME) (replicate 10 None) = (cfg, dev1)"
    by (cases "pollConfig 12 (sendReport dev READ_FRAME) (replicate 10 None)")
  then have rc: "readConfig dev = Some (cfg, dev1)" by (simp add: readConfig_Some)
  have "cfg = fst (pollConfig 12 (sendReport dev READ_FRAME) (replicate 10 None))"
    using p by simp
  also have "\<dots> = slots keptByCode (received (inbox dev))"
    by (simp only: pollConfig_foldl foldl_storeReport_slots received_def) (simp add: sendReport_def)
  finally have c: "cfg = slots keptByCode (received (inbox dev))" .
  then have l: "length cfg = 10" by (simp add: slots_def)
  note s = readConfig_sent [OF rc] and k = gotConfig_card [OF l]
  show ?thesis
  proof (intro exI conjI)
    show "readConfig dev = Some (cfg, dev1)" by (rule rc)
    show "sent dev1 = sent dev @ [READ_FRAME]" by (rule s)
    show "cfg = slots keptByCode (received (inbox dev))" by (rule c)
    show "length cfg = 10" by (rule l)
    show "\<not> gotConfig cfg \<longleftrightarrow> card {i. i < 10 \<and> cfg ! i \<noteq> None} < 10" by (rule k)
  qed
qed


theorem readConfig_keeps_witness:
  "readConfig exDevice
     = Some (slots keptByCode (received (inbox exDevice)), \<lparr>sent = [READ_FRAME], inbox = []\<rparr>)
    \<and> gotConfig (slots keptByCode (received (inbox exDevice)))"
proof -
  from readConfig_keeps [of exDevice] exDevice_read
  have "map (\<lambda>s. Some (exFragment s)) [0..<10] = slots keptByCode (received (inbox exDevice))"
    by simp
  with exDevice_read exDevice_complete show ?thesis by simp
qed

text \<open>
  C3, as stated: every received fragment with the READ command and the CONFIG subcommand
  is kept under its sequence byte. It fails for a 20-byte report with these two bytes and
  sequence 0 that arrives under another report id: the statement puts it in slot 0, the
  code leaves all ten slots empty.
\<close>

theorem readConfig_drops_other_report_id:
  "map_option fst (readConfig strayDevice) = Some (replicate 10 None)
     \<and> slots keptAsStated (received (inbox strayDevice)) ! 0 = Some strayReport"
  by code_simp

section \<open>The per-key phase\<close>

lemma those_map_Some:
  "(\<And>x. x \<in> set xs \<Longrightarrow> f x = Some (g x)) \<Longrightarrow> those (map f xs) = Some (map g xs)"
  by (induction xs) simp_all

lemma buildFrame_15:
  "length p = 15 \<Longrightarrow>
   buildFrame c s q p =
     Some (REPORT_ID # c # s # of_nat q # p @ [checksum (REPORT_ID # c # s # of_nat q # p)])"
  by (simp add: buildFrame_def Let_def)

lemma paintKey_lengths:
  "paintKey (R, G, B) e = (R', G', B') \<Longrightarrow>
   length R' = length R \<and> length G' = length G \<and> length B' = length B"
  by (auto simp: paintKey_def split: prod.splits if_splits)

lemma colorPlanes_snoc: "colorPlanes (kc @ [e]) = paintKey (colorPlanes kc) e"
  by (simp add: colorPlanes_def)

lemma colorAt_snoc:
  "colorAt (kc @ [(idx, rgb)]) i = (if idx = int i then rgb else colorAt kc i)"
  by (simp add: colorAt_def)

lemma colorPlanes_nth:
  "colorPlanes kc = (R, G, B) \<Longrightarrow>
   length R = 126 \<and> length G = 126 \<and> length B = 126
   \<and> (\<forall>i<126. R ! i = u8 (channel 0 (colorAt kc i))
            \<and> G ! i = u8 (channel 1 (colorAt kc i))
            \<and> B ! i = u8 (channel 2 (colorAt kc i)))"
proof (induction kc arbitrary: R G B rule: rev_induct)
  case Nil
  then show ?case by (auto simp: colorPlanes_def colorAt_def channel_def u8_def)
next
  case (snoc e kc)
  obtain R0 G0 B0 where p0: "colorPlanes kc = (R0, G0, B0)"
    by (cases "colorPlanes kc") auto
  note ih = snoc.IH [OF p0]
  obtain idx r g b where e: "e = (idx, (r, g, b))" by (cases e) auto
  have step: "paintKey (R0, G0, B0) (idx, (r, g, b)) = (R, G, B)"
    using snoc.prems p0 e by (simp add: colorPlanes_snoc)
  show ?case
  proof (cases "idx \<ge> 0 \<and> idx < 126")
    case True
    then have eq: "R = R0[nat idx := u8 r]" "G = G0[nat idx := u8 g]" "B = B0[nat idx := u8 b]"
      using step by (simp_all add: paintKey_def)
    have "\<And>i. nat idx = i \<longleftrightarrow> idx = int i" using True by auto
    then show ?thesis
      using ih True unfolding eq e
      by (auto simp: nth_list_update colorAt_snoc channel_def)
  next
    case False
    then have eq: "R = R0" "G = G0" "B = B0" using step by (auto simp: paintKey_def)
    have "\<And>i. i < 126 \<Longrightarrow> idx \<noteq> int i" using False by auto
    then show ?thesis
      using ih unfolding eq e by (simp add: colorAt_snoc)
  qed
qed

lemma length_planePayloads: "length (planePayloads plane) = 9"
  by (simp add: planePayloads_def)

lemma planePayloads_nth:
  "i < 9 \<Longrightarrow> planePayloads plane ! i = 0x0e # map (\<lambda>j. plane ! (i * 14 + j)) [0..<14]"
  by (simp add: planePayloads_def)

lemma planePayloads_length15: "p \<in> set (planePayloads plane) \<Longrightarrow> length p = 15"
  by (auto simp: planePayloads_def)

lemma length_trailer: "length trailer = 15"
  by (simp add: trailer_def)

lemma length_payloadsOf: "length (payloadsOf R G B) = 28"
  by (simp add: payloadsOf_def length_planePayloads)

lemma payloadsOf_length15: "p \<in> set (payloadsOf R G B) \<Longrightarrow> length p = 15"
  by (auto simp: payloadsOf_def length_trailer dest: planePayloads_length15)

lemma payloadsOf_nth_length15: "n < 28 \<Longrightarrow> length (payloadsOf R G B ! n) = 15"
  using payloadsOf_length15 [OF nth_mem, of n R G B] by (simp add: length_payloadsOf)

lemma perKeyFrames_eq:
  "colorPlanes kc = (R, G, B) \<Longrightarrow>
   perKeyFrames kc =
     Some (map (\<lambda>(seq, p). REPORT_ID # CMD_PERKEY # SUBCMD_PERKEY # of_nat seq # p
                  @ [checksum (REPORT_ID # CMD_PERKEY # SUBCMD_PERKEY # of_nat seq # p)])
             (enumerate 0 (payloadsOf R G B)))"
proof -
  assume cp: "colorPlanes kc = (R, G, B)"
  have pk: "perKeyFrames kc =
      those (map (\<lambda>(seq, payload). buildFrame CMD_PERKEY SUBCMD_PERKEY seq payload)
               (enumerate 0 (payloadsOf R G B)))"
    using cp by (simp add: perKeyFrames_def payloadsOf_def)
  show ?thesis
    unfolding pk
    by (rule those_map_Some)
       (auto simp: in_set_enumerate_eq length_payloadsOf intro!: buildFrame_15 payloadsOf_nth_length15)
qed

lemma perKeyFrames_nth:
  assumes "colorPlanes kc = (R, G, B)" and "perKeyFrames kc = Some frames" and "n < 28"
  shows "length frames = 28"
    and "Some (frames ! n) = buildFrame CMD_PERKEY SUBCMD_PERKEY n (payloadsOf R G B ! n)"
    and "m < 15 \<Longrightarrow> frames ! n ! (4 + m) = payloadsOf R G B ! n ! m"
proof -
  have f: "frames = map (\<lambda>(seq, p). REPORT_ID # CMD_PERKEY # SUBCMD_PERKEY # of_nat seq # p
                  @ [checksum (REPORT_ID # CMD_PERKEY # SUBCMD_PERKEY # of_nat seq # p)])
             (enumerate 0 (payloadsOf R G B))"
    using perKeyFrames_eq [OF assms(1)] assms(2) by simp
  show "length frames = 28" by (simp add: f length_payloadsOf)
  have l: "length (payloadsOf R G B ! n) = 15"
    using assms(3) by (rule payloadsOf_nth_length15)
  have fn: "frames ! n = REPORT_ID # CMD_PERKEY # SUBCMD_PERKEY # of_nat n # payloadsOf R G B ! n
                  @ [checksum (REPORT_ID # CMD_PERKEY # SUBCMD_PERKEY # of_nat n # payloadsOf R G B ! n)]"
    using assms(3) by (simp add: f length_payloadsOf nth_enumerate_eq)
  show "Some (frames ! n) = buildFrame CMD_PERKEY SUBCMD_PERKEY n (payloadsOf R G B ! n)"
    by (simp only: fn buildFrame_15 [OF l])
  show "frames ! n ! (4 + m) = payloadsOf R G B ! n ! m" if "m < 15"
    using that l by (simp add: fn nth_append)
qed

lemma payloadsOf_plane:
  assumes "i < 9"
  shows "payloadsOf R G B ! i = 0x0e # map (\<lambda>j. R ! (i * 14 + j)) [0..<14]"
    and "payloadsOf R G B ! (9 + i) = 0x0e # map (\<lambda>j. G ! (i * 14 + j)) [0..<14]"
    and "payloadsOf R G B ! (18 + i) = 0x0e # map (\<lambda>j. B ! (i * 14 + j)) [0..<14]"
    and "payloadsOf R G B ! 27 = trailer"
  using assms
  by (simp_all add: payloadsOf_def nth_append length_planePayloads planePayloads_nth)


lemma plane_payload:
  assumes "\<forall>i<126. P ! i = u8 (channel k (colorAt kc i))" and "i < 9"
  shows "0x0e # map (\<lambda>j. P ! (i * 14 + j)) [0..<14]
           = 0x0e # map (\<lambda>j. u8 (channel k (colorAt kc (i * 14 + j)))) [0..<14]"
proof -
  have "\<And>j. j < 14 \<Longrightarrow> i * 14 + j < 126" using assms(2) by arith
  with assms(1) show ?thesis by simp
qed

lemma plane_payload_nth:
  assumes "i < 126"
  shows "(0x0e # map (\<lambda>j. P ! (i div 14 * 14 + j)) [0..<14]) ! (1 + i mod 14) = P ! i"
proof -
  have "i mod 14 < 14" by simp
  then have "(0x0e # map (\<lambda>j. P ! (i div 14 * 14 + j)) [0..<14]) ! (1 + i mod 14)
               = P ! (i div 14 * 14 + i mod 14)"
    by (simp del: upt_Suc)
  then show ?thesis by simp
qed

lemma decodePerKey_planes:
  assumes "colorPlanes kc = (R, G, B)" and "perKeyFrames kc = Some frames" and "i < 126"
  shows "decodePerKey frames i = (R ! i, G ! i, B ! i)"
proof -
  have d: "i div 14 < 9" using assms(3) by arith
  then have n: "i div 14 < 28" "9 + i div 14 < 28" "18 + i div 14 < 28" by simp_all
  have m: "1 + i mod 14 < 15" by simp
  have five: "5 + i mod 14 = 4 + (1 + i mod 14)" by simp
  show ?thesis
    unfolding decodePerKey_def five
    by (simp only: perKeyFrames_nth(3) [OF assms(1,2) n(1) m]
          perKeyFrames_nth(3) [OF assms(1,2) n(2) m]
          perKeyFrames_nth(3) [OF assms(1,2) n(3) m]
          payloadsOf_plane(1-3) [OF d] plane_payload_nth [OF assms(3)])
qed

lemma colorAt_cases:
  "colorAt kc i = (0, 0, 0) \<or> (int i, colorAt kc i) \<in> set kc"
proof (cases "map_of (rev kc) (int i)")
  case None
  then show ?thesis by (simp add: colorAt_def)
next
  case (Some rgb)
  then have "(int i, rgb) \<in> set (rev kc)" by (rule map_of_SomeD)
  with Some show ?thesis by (simp add: colorAt_def)
qed

lemma byteColors_colorAt:
  assumes "byteColors kc" and "colorAt kc i = (r, g, b)"
  shows "r mod 256 = r \<and> g mod 256 = g \<and> b mod 256 = b"
proof -
  from colorAt_cases [of kc i] show ?thesis
  proof
    assume "colorAt kc i = (0, 0, 0)"
    with assms(2) show ?thesis by simp
  next
    assume "(int i, colorAt kc i) \<in> set kc"
    then have "(int i, (r, g, b)) \<in> set kc" using assms(2) by simp
    with assms(1) have "0 \<le> r \<and> r < 256 \<and> 0 \<le> g \<and> g < 256 \<and> 0 \<le> b \<and> b < 256"
      by (auto simp: byteColors_def list_all_iff)
    then show ?thesis by simp
  qed
qed

lemma applyPerKey_sent:
  assumes "readConfig dev = Some (config, dev1)" and "selfDefineWriteFrames tm config = Some W"
    and "perKeyFrames kc = Some F"
  shows "fst (applyPerKey tm dev kc) = Done"
    and "sent (snd (applyPerKey tm dev kc)) = sent dev @ [READ_FRAME] @ W @ F @ [SAVE_FRAME]"
  using assms readConfig_sent [OF assms(1)]
  by (simp_all add: applyPerKey_def Let_def savePhase_Done savePhase_sent txBulk_sent)

text \<open>
  C6. For every color map the per-key phase builds exactly 28 frames. Frame \<open>9 * k + i\<close>,
  for plane \<open>k\<close> (red, green, blue) and \<open>i\<close> from 0 to 8, is the PERKEY frame with that
  sequence number whose payload is the marker \<open>0x0e\<close> followed by the channel-\<open>k\<close> values
  of LEDs \<open>14 * i\<close> to \<open>14 * i + 13\<close>, zero where the map has no entry; frame 27 carries
  the fixed trailer. Reading the planes back gives the stored byte of each channel of each
  of the 126 LEDs, which is the map itself when its channel values are bytes. The frames
  are what \<open>applyPerKey\<close> sends between the configuration frames and the save frame.
\<close>

theorem per_key_frames:
  "\<exists>frames. perKeyFrames kc = Some frames \<and> length frames = 28
     \<and> (\<forall>k<3. \<forall>i<9.
           Some (frames ! (9 * k + i))
             = buildFrame CMD_PERKEY SUBCMD_PERKEY (9 * k + i)
                 (0x0e # map (\<lambda>j. u8 (channel k (colorAt kc (i * 14 + j)))) [0..<14]))
     \<and> Some (frames ! 27)
           = buildFrame CMD_PERKEY SUBCMD_PERKEY 27 ([0x06, 0x00, 0x00, 0x5a, 0xa5] @ replicate 10 0x00)
     \<and> (\<forall>i<126. decodePerKey frames i
           = (u8 (channel 0 (colorAt kc i)), u8 (channel 1 (colorAt kc i)), u8 (channel 2 (colorAt kc i))))
     \<and> (byteColors kc \<longrightarrow>
          (\<forall>i<126. case decodePerKey frames i of (r, g, b) \<Rightarrow> (uint r, uint g, uint b) = colorAt kc i))
     \<and> (\<forall>tm dev config dev1 W.
           readConfig dev = Some (config, dev1) \<and> selfDefineWriteFrames tm config = Some W \<longrightarrow>
           sent (snd (applyPerKey tm dev kc)) = sent dev @ [READ_FRAME] @ W @ frames @ [SAVE_FRAME])"
proof -
  obtain R G B where cp: "colorPlanes kc = (R, G, B)" by (cases "colorPlanes kc") auto
  from perKeyFrames_eq [OF cp] obtain frames where pf: "perKeyFrames kc = Some frames" by blast
  note pl = colorPlanes_nth [OF cp]
  have len: "length frames = 28" using perKeyFrames_nth(1) [OF cp pf, of 0] by simp
  have planes: "Some (frames ! (9 * k + i))
             = buildFrame CMD_PERKEY SUBCMD_PERKEY (9 * k + i)
                 (0x0e # map (\<lambda>j. u8 (channel k (colorAt kc (i * 14 + j)))) [0..<14])"
    if "k < 3" "i < 9" for k i
  proof -
    have n: "9 * k + i < 28" using that by arith
    from that(1) consider "k = 0" | "k = 1" | "k = 2" by arith
    then have "payloadsOf R G B ! (9 * k + i)
                 = 0x0e # map (\<lambda>j. u8 (channel k (colorAt kc (i * 14 + j)))) [0..<14]"
    proof cases
      case 1
      have "\<forall>i<126. R ! i = u8 (channel 0 (colorAt kc i))" using pl by simp
      from plane_payload [OF this that(2)] show ?thesis
        by (simp only: 1 payloadsOf_plane(1) [OF that(2)] mult_0_right add_0)
    next
      case 2
      have "\<forall>i<126. G ! i = u8 (channel 1 (colorAt kc i))" using pl by simp
      from plane_payload [OF this that(2)] show ?thesis
        by (simp only: 2 payloadsOf_plane(2) [OF that(2)] mult_1_right)
    next
      case 3
      have e: "9 * 2 + i = 18 + i" by simp
      have "\<forall>i<126. B ! i = u8 (channel 2 (colorAt kc i))" using pl by simp
      from plane_payload [OF this that(2)] show ?thesis
        by (simp only: 3 e payloadsOf_plane(3) [OF that(2)])
    qed
    with perKeyFrames_nth(2) [OF cp pf n] show ?thesis by simp
  qed
  have tr: "Some (frames ! 27)
           = buildFrame CMD_PERKEY SUBCMD_PERKEY 27 ([0x06, 0x00, 0x00, 0x5a, 0xa5] @ replicate 10 0x00)"
    using perKeyFrames_nth(2) [OF cp pf, of 27] payloadsOf_plane(4) [of 0 R G B]
    by (simp add: trailer_def)
  have dec: "decodePerKey frames i
           = (u8 (channel 0 (colorAt kc i)), u8 (channel 1 (colorAt kc i)), u8 (channel 2 (colorAt kc i)))"
    if "i < 126" for i
    using decodePerKey_planes [OF cp pf that] pl that by simp
  have rt: "case decodePerKey frames i of (r, g, b) \<Rightarrow> (uint r, uint g, uint b) = colorAt kc i"
    if "byteColors kc" "i < 126" for i
  proof -
    obtain r g b where c: "colorAt kc i = (r, g, b)" by (cases "colorAt kc i") auto
    from byteColors_colorAt [OF that(1) c] show ?thesis
      by (simp add: dec [OF that(2)] c channel_def uint_u8)
  qed
  have whole: "sent (snd (applyPerKey tm dev kc)) = sent dev @ [READ_FRAME] @ W @ frames @ [SAVE_FRAME]"
    if "readConfig dev = Some (config, dev1) \<and> selfDefineWriteFrames tm config = Some W"
    for tm dev config dev1 W
    using that applyPerKey_sent(2) [OF _ _ pf] by blast
  show ?thesis
  proof (intro exI [of _ frames] conjI allI impI)
    show "perKeyFrames kc = Some frames" by (rule pf)
    show "length frames = 28" by (rule len)
    show "Some (frames ! 27)
           = buildFrame CMD_PERKEY SUBCMD_PERKEY 27 ([0x06, 0x00, 0x00, 0x5a, 0xa5] @ replicate 10 0x00)"
      by (rule tr)
  next
    fix k i :: nat
    assume "k < 3" "i < 9"
    then show "Some (frames ! (9 * k + i))
             = buildFrame CMD_PERKEY SUBCMD_PERKEY (9 * k + i)
                 (0x0e # map (\<lambda>j. u8 (channel k (colorAt kc (i * 14 + j)))) [0..<14])"
      by (rule planes)
  next
    fix i :: nat
    assume "i < 126"
    then show "decodePerKey frames i
           = (u8 (channel 0 (colorAt kc i)), u8 (channel 1 (colorAt kc i)), u8 (channel 2 (colorAt kc i)))"
      by (rule dec)
  next
    fix i :: nat
    assume "byteColors kc" "i < 126"
    then show "case decodePerKey frames i of (r, g, b) \<Rightarrow> (uint r, uint g, uint b) = colorAt kc i"
      by (rule rt)
  next
    fix tm dev config dev1 W
    assume "readConfig dev = Some (config, dev1) \<and> selfDefineWriteFrames tm config = Some W"
    then show "sent (snd (applyPerKey tm dev kc)) = sent dev @ [READ_FRAME] @ W @ frames @ [SAVE_FRAME]"
      by (rule whole)
  qed
qed

lemma exDevice_selfDefine:
  "selfDefineWriteFrames exTemplates (map (\<lambda>s. Some (exFragment s)) [0..<10]) \<noteq> None"
  by code_simp

theorem per_key_frames_witness:
  "byteColors exKeyColors
   \<and> (\<exists>frames W. perKeyFrames exKeyColors = Some frames \<and> length frames = 28
         \<and> decodePerKey frames 62 = (0, 128, 7)
         \<and> decodePerKey frames 61 = (0, 0, 0)
         \<and> (case decodePerKey frames 125 of (r, g, b) \<Rightarrow> (uint r, uint g, uint b) = (1, 2, 3))
         \<and> sent (snd (applyPerKey exTemplates exDevice exKeyColors))
             = [READ_FRAME] @ W @ frames @ [SAVE_FRAME])"
proof -
  have b: "byteColors exKeyColors" by code_simp
  have c: "colorAt exKeyColors 62 = (0, 128, 7)" "colorAt exKeyColors 61 = (0, 0, 0)"
    "colorAt exKeyColors 125 = (1, 2, 3)"
    by code_simp+
  from exDevice_selfDefine obtain W where
    w: "selfDefineWriteFrames exTemplates (map (\<lambda>s. Some (exFragment s)) [0..<10]) = Some W"
    by blast
  from per_key_frames [of exKeyColors] obtain frames where
    f: "perKeyFrames exKeyColors = Some frames" "length frames = 28"
    and d: "\<forall>i<126. decodePerKey frames i
           = (u8 (channel 0 (colorAt exKeyColors i)), u8 (channel 1 (colorAt exKeyColors i)),
              u8 (channel 2 (colorAt exKeyColors i)))"
    and r: "byteColors exKeyColors \<longrightarrow>
          (\<forall>i<126. case decodePerKey frames i of (r, g, b) \<Rightarrow>
                      (uint r, uint g, uint b) = colorAt exKeyColors i)"
    and a: "\<forall>tm dev config dev1 W.
           readConfig dev = Some (config, dev1) \<and> selfDefineWriteFrames tm config = Some W \<longrightarrow>
           sent (snd (applyPerKey tm dev exKeyColors))
             = sent dev @ [READ_FRAME] @ W @ frames @ [SAVE_FRAME]"
    by blast
  from d have d': "decodePerKey frames 62 = (0, 128, 7)" "decodePerKey frames 61 = (0, 0, 0)"
    by (simp_all add: c channel_def u8_def)
  from r b have "case decodePerKey frames 125 of (r, g, b) \<Rightarrow>
                      (uint r, uint g, uint b) = colorAt exKeyColors 125"
    by simp
  then have r': "case decodePerKey frames 125 of (r, g, b) \<Rightarrow> (uint r, uint g, uint b) = (1, 2, 3)"
    by (simp only: c)
  from a exDevice_read w
  have "sent (snd (applyPerKey exTemplates exDevice exKeyColors))
             = sent exDevice @ [READ_FRAME] @ W @ frames @ [SAVE_FRAME]"
    by blast
  then have a': "sent (snd (applyPerKey exTemplates exDevice exKeyColors))
             = [READ_FRAME] @ W @ frames @ [SAVE_FRAME]"
    by (simp add: exDevice_def)
  show ?thesis
  proof (rule conjI, rule b, rule exI [of _ frames], rule exI [of _ W], intro conjI)
    show "perKeyFrames exKeyColors = Some frames" by (rule f(1))
    show "length frames = 28" by (rule f(2))
    show "decodePerKey frames 62 = (0, 128, 7)" by (rule d'(1))
    show "decodePerKey frames 61 = (0, 0, 0)" by (rule d'(2))
    show "case decodePerKey frames 125 of (r, g, b) \<Rightarrow> (uint r, uint g, uint b) = (1, 2, 3)"
      by (rule r')
    show "sent (snd (applyPerKey exTemplates exDevice exKeyColors))
             = [READ_FRAME] @ W @ frames @ [SAVE_FRAME]"
      by (rule a')
  qed
qed

lemma paintKey_out_of_range: "\<not> ledInRange e \<Longrightarrow> paintKey planes e = planes"
  by (cases planes; cases e) (auto simp: paintKey_def ledInRange_def)

lemma foldl_paintKey_filter:
  "foldl paintKey planes (filter ledInRange kc) = foldl paintKey planes kc"
  by (induction kc arbitrary: planes) (simp_all add: paintKey_out_of_range)

text \<open>
  C7, amended: entries of a color map whose LED index is outside 0 to 125 are dropped
  without an error: the per-key frames are those of the map without these entries, they
  are always built, and \<open>applyPerKey\<close> runs to its end.
\<close>

theorem per_key_out_of_range_dropped:
  "perKeyFrames kc = perKeyFrames (filter ledInRange kc)
   \<and> perKeyFrames kc \<noteq> None
   \<and> (\<forall>tm dev config dev1 W.
         readConfig dev = Some (config, dev1) \<and> selfDefineWriteFrames tm config = Some W \<longrightarrow>
         fst (applyPerKey tm dev kc) = Done)"
proof -
  have "colorPlanes kc = colorPlanes (filter ledInRange kc)"
    by (simp add: colorPlanes_def foldl_paintKey_filter)
  then have a: "perKeyFrames kc = perKeyFrames (filter ledInRange kc)"
    by (simp add: perKeyFrames_def)
  obtain R G B where cp: "colorPlanes kc = (R, G, B)" by (cases "colorPlanes kc") auto
  from perKeyFrames_eq [OF cp] obtain F where pf: "perKeyFrames kc = Some F" by blast
  have b: "perKeyFrames kc \<noteq> None" using pf by simp
  have c: "fst (applyPerKey tm dev kc) = Done"
    if "readConfig dev = Some (config, dev1) \<and> selfDefineWriteFrames tm config = Some W"
    for tm dev config dev1 W
    using that applyPerKey_sent(1) [OF _ _ pf] by blast
  show ?thesis
  proof (intro conjI allI impI)
    show "perKeyFrames kc = perKeyFrames (filter ledInRange kc)" by (rule a)
    show "perKeyFrames kc \<noteq> None" by (rule b)
  next
    fix tm dev config dev1 W
    assume "readConfig dev = Some (config, dev1) \<and> selfDefineWriteFrames tm config = Some W"
    then show "fst (applyPerKey tm dev kc) = Done" by (rule c)
  qed
qed

theorem per_key_out_of_range_dropped_witness:
  "\<not> ledInRange (126, (255, 0, 0))
   \<and> perKeyFrames [(126, (255, 0, 0)), (5, (1, 2, 3))] = perKeyFrames [(5, (1, 2, 3))]
   \<and> fst (applyPerKey exTemplates exDevice [(126, (255, 0, 0)), (5, (1, 2, 3))]) = Done"
proof -
  have l: "\<not> ledInRange (126, (255, 0, 0))" "ledInRange (5, (1, 2, 3))"
    by (simp_all add: ledInRange_def)
  from exDevice_selfDefine obtain W where
    w: "selfDefineWriteFrames exTemplates (map (\<lambda>s. Some (exFragment s)) [0..<10]) = Some W"
    by blast
  note t = per_key_out_of_range_dropped [of "[(126, (255, 0, 0)), (5, (1, 2, 3))]"]
  from t l have a: "perKeyFrames [(126, (255, 0, 0)), (5, (1, 2, 3))] = perKeyFrames [(5, (1, 2, 3))]"
    by simp
  from t exDevice_read w
  have "fst (applyPerKey exTemplates exDevice [(126, (255, 0, 0)), (5, (1, 2, 3))]) = Done"
    by blast
  with l(1) a show ?thesis by blast
qed

text \<open>
  C7, as stated: a color map with an LED index outside 0 to 125 is rejected with an error.
  It fails for the map with the one entry 126: the operation runs to its end, sending all
  40 frames, with the per-key frames of the empty map.
\<close>

theorem per_key_accepts_index_126:
  "\<not> (0 \<le> (126::int) \<and> (126::int) \<le> 125)
   \<and> fst (applyPerKey exTemplates exDevice [(126, (255, 0, 0))]) = Done
   \<and> length (sent (snd (applyPerKey exTemplates exDevice [(126, (255, 0, 0))]))) = 40
   \<and> perKeyFrames [(126, (255, 0, 0))] = perKeyFrames []"
  by code_simp

section \<open>The speed byte of an effect\<close>

lemma byte_masks:
  "(0x0F::byte) = mask 4" "(0x07::byte) = mask 3" "(0xF0::byte) = push_bit 4 (mask 4)"
  by (simp_all add: mask_eq_exp_minus_1 push_bit_eq_mult)

lemma low_nibble_enc:
  "(push_bit 4 (x::byte) OR (if cf then 0x07 else 0x00)) AND 0x0F = (if cf then 0x07 else 0x00)"
  unfolding byte_masks
  by (rule bit_word_eqI) (auto simp: bit_simps split: if_splits)

lemma low_nibble_eq_7: "(if cf then (0x07::byte) else 0x00) = 0x07 \<longleftrightarrow> cf"
  by simp

lemma high_nibble_enc:
  "drop_bit 4 (push_bit 4 (x::byte) OR (if cf then 0x07 else 0x00)) = take_bit 4 x"
  unfolding byte_masks
  by (rule bit_word_eqI) (auto simp: bit_simps split: if_splits)

lemma push_take: "push_bit 4 (take_bit 4 (x::byte)) = push_bit 4 x"
  by (rule bit_word_eqI) (auto simp: bit_simps)

lemma push_drop: "push_bit 4 (drop_bit 4 (b::byte)) = b AND 0xF0"
  unfolding byte_masks
  by (rule bit_word_eqI) (auto simp: bit_simps)

lemma u8_uint: "u8 (uint (w::byte)) = w"
  by (simp add: u8_def)

lemma decode_encode:
  "decodeSpeedByte (encodeSpeedByte s cf) = (uint (take_bit 4 (u8 s)), cf)"
  by (simp only: decodeSpeedByte_def encodeSpeedByte_def low_nibble_enc high_nibble_enc low_nibble_eq_7)

lemma encode_decoded_speed:
  "encodeSpeedByte (uint (take_bit 4 (u8 s))) cf = encodeSpeedByte s cf"
  by (simp only: encodeSpeedByte_def u8_uint push_take)

lemma newSpeedByte_decoded:
  "decodeSpeedByte (newSpeedByte opts b) =
     (uint (take_bit 4 (u8 (case speed opts of Some s \<Rightarrow> s | None \<Rightarrow> fst (decodeSpeedByte b)))),
      if colorful opts then True else (colorRgb opts = None \<and> snd (decodeSpeedByte b)))"
  by (simp only: newSpeedByte_def Let_def decode_encode)

lemma newSpeedByte_idem: "newSpeedByte opts (newSpeedByte opts b) = newSpeedByte opts b"
proof -
  define s0 where "s0 = (case speed opts of Some s \<Rightarrow> s | None \<Rightarrow> fst (decodeSpeedByte b))"
  define c0 where "c0 = (if colorful opts then True else (colorRgb opts = None \<and> snd (decodeSpeedByte b)))"
  have first: "newSpeedByte opts b = encodeSpeedByte s0 c0"
    by (simp add: newSpeedByte_def Let_def s0_def c0_def)
  have c: "(if colorful opts then True else (colorRgb opts = None \<and> c0)) = c0"
    by (simp add: c0_def)
  have "newSpeedByte opts (encodeSpeedByte s0 c0)
      = encodeSpeedByte (case speed opts of Some s \<Rightarrow> s | None \<Rightarrow> uint (take_bit 4 (u8 s0))) c0"
    using c by (cases "speed opts"; cases "colorful opts") (simp_all add: newSpeedByte_def Let_def decode_encode)
  also have "\<dots> = encodeSpeedByte s0 c0"
  proof (cases "speed opts")
    case None
    then show ?thesis by (simp add: encode_decoded_speed)
  next
    case (Some s)
    then show ?thesis by (simp add: s0_def)
  qed
  finally show ?thesis by (simp only: first)
qed

lemma newSpeedByte_keep_speed:
  "speed opts = None \<Longrightarrow>
   newSpeedByte opts b
     = (b AND 0xF0) OR (if colorful opts \<or> (colorRgb opts = None \<and> b AND 0x0F = 0x07) then 0x07 else 0x00)"
  by (auto simp: newSpeedByte_def Let_def decodeSpeedByte_def encodeSpeedByte_def u8_uint push_drop)

section \<open>Changing the effect\<close>

lemma effectTableLoc_range:
  "effectTableLoc n = Some (ts, off) \<Longrightarrow> 4 \<le> ts \<and> ts \<le> 6 \<and> 5 \<le> off \<and> off \<le> 17"
  by (auto simp: effectTableLoc_def split: if_splits)

lemma effectTableLoc_EFFECTS: "effectTableLoc n = Some loc \<Longrightarrow> n \<in> EFFECTS"
  by (auto simp: effectTableLoc_def EFFECTS_def split: if_splits)

lemma effectFrameRead_edits:
  "effectFrameRead n opts seq r
     = (effectEdits n opts seq r)[19 := checksum (effectEdits n opts seq r)]"
  by (simp add: effectFrameRead_def effectEdits_def Let_def)

lemma length_effectEdits: "length (effectEdits n opts seq r) = length r"
  by (simp add: effectEdits_def Let_def split: option.splits prod.splits)

lemma effectEdits_update_1: "effectEdits n opts seq (x[1 := c]) = effectEdits n opts seq x"
  by (simp add: effectEdits_def)

lemma effectEdits_other:
  assumes "effectTableLoc n = Some (ts, off)" and "seq \<noteq> 0" and "seq \<noteq> ts"
  shows "effectEdits n opts seq r = r[1 := CMD_WRITE]"
  using assms by (simp add: effectEdits_def)

lemma effectEdits_zero:
  assumes "effectTableLoc n = Some (ts, off)"
  shows "effectEdits n opts 0 r
           = r[1 := CMD_WRITE, 8 := 0x01, 14 := 0x00, 15 := u8 n,
               17 := (if colorRgb opts \<noteq> None \<or> colorful opts then 0x01 else 0x03)]"
  using assms effectTableLoc_range [OF assms] by (simp add: effectEdits_def)

lemma effectEdits_target:
  assumes "effectTableLoc n = Some (ts, off)" and "length r \<ge> 20"
  shows "effectEdits n opts ts r
           = (case brightness opts of Some b \<Rightarrow> r[1 := CMD_WRITE, off := u8 b] | None \<Rightarrow> r[1 := CMD_WRITE])
               [off + 1 := newSpeedByte opts (r ! (off + 1))]"
  using assms effectTableLoc_range [OF assms(1)]
  by (auto simp: effectEdits_def Let_def split: option.splits)


lemma effectEdits_update_19:
  assumes "effectTableLoc n = Some (ts, off)" and "length x \<ge> 20"
  shows "effectEdits n opts seq (x[19 := c]) = (effectEdits n opts seq x)[19 := c]"
proof -
  note rg = effectTableLoc_range [OF assms(1)]
  consider "seq = 0" | "seq = ts" | "seq \<noteq> 0" "seq \<noteq> ts" by blast
  then show ?thesis
  proof cases
    case 1
    show ?thesis
      unfolding 1 effectEdits_zero [OF assms(1)]
      by (simp add: list_update_swap [of 19])
  next
    case 2
    have l: "length (x[19 := c]) \<ge> 20" using assms(2) by simp
    have rd: "x[19 := c] ! (off + 1) = x ! (off + 1)" using rg by simp
    show ?thesis
      unfolding 2 effectEdits_target [OF assms(1) l] effectEdits_target [OF assms] rd
      using rg by (cases "brightness opts") (simp_all add: list_update_swap [of 19])
  next
    case 3
    then show ?thesis
      by (simp add: effectEdits_other [OF assms(1)] list_update_swap [of 19])
  qed
qed

lemma effectEdits_idem:
  assumes "effectTableLoc n = Some (ts, off)" and "length x \<ge> 20"
  shows "effectEdits n opts seq (effectEdits n opts seq x) = effectEdits n opts seq x"
proof -
  note rg = effectTableLoc_range [OF assms(1)]
  consider "seq = 0" | "seq = ts" | "seq \<noteq> 0" "seq \<noteq> ts" by blast
  then show ?thesis
  proof cases
    case 1
    show ?thesis
      unfolding 1 effectEdits_zero [OF assms(1)]
      using assms(2) by (intro nth_equalityI) (simp_all add: nth_list_update)
  next
    case 2
    have l: "length (effectEdits n opts ts x) \<ge> 20"
      using assms(2) by (simp add: length_effectEdits)
    have rd: "effectEdits n opts ts x ! (off + 1) = newSpeedByte opts (x ! (off + 1))"
      unfolding effectEdits_target [OF assms]
      using rg assms(2) by (cases "brightness opts") simp_all
    show ?thesis
      unfolding 2
      apply (subst effectEdits_target [OF assms(1) l])
      apply (simp only: rd newSpeedByte_idem)
      unfolding effectEdits_target [OF assms]
      using rg assms(2)
      by (cases "brightness opts") (auto intro!: nth_equalityI simp: nth_list_update)
  next
    case 3
    then show ?thesis
      by (simp add: effectEdits_other [OF assms(1)])
  qed
qed

lemma effectFrameRead_echo:
  assumes "effectTableLoc n = Some (ts, off)" and "length r \<ge> 20"
  shows "effectFrameRead n opts seq ((effectFrameRead n opts seq r)[1 := c])
           = effectFrameRead n opts seq r"
proof -
  let ?E = "effectEdits n opts seq"
  have l: "length (?E r) \<ge> 20" using assms(2) by (simp add: length_effectEdits)
  have "?E (((?E r)[19 := checksum (?E r)])[1 := c]) = ?E ((?E r)[19 := checksum (?E r)])"
    by (rule effectEdits_update_1)
  also have "\<dots> = (?E (?E r))[19 := checksum (?E r)]"
    using assms(1) l by (rule effectEdits_update_19)
  also have "\<dots> = (?E r)[19 := checksum (?E r)]"
    by (simp only: effectEdits_idem [OF assms])
  finally have e: "?E ((effectFrameRead n opts seq r)[1 := c]) = (?E r)[19 := checksum (?E r)]"
    by (simp only: effectFrameRead_edits)
  have "effectFrameRead n opts seq ((effectFrameRead n opts seq r)[1 := c])
          = (?E ((effectFrameRead n opts seq r)[1 := c]))
              [19 := checksum (?E ((effectFrameRead n opts seq r)[1 := c]))]"
    by (rule effectFrameRead_edits)
  also have "\<dots> = ((?E r)[19 := checksum (?E r)])[19 := checksum ((?E r)[19 := checksum (?E r)])]"
    by (simp only: e)
  also have "\<dots> = (?E r)[19 := checksum (?E r)]"
    by (simp only: checksum_update_19 list_update_overwrite)
  also have "\<dots> = effectFrameRead n opts seq r"
    by (simp only: effectFrameRead_edits)
  finally show ?thesis .
qed

lemma effectFrameRead_command:
  assumes "effectTableLoc n = Some (ts, off)" and "length r \<ge> 20"
  shows "effectFrameRead n opts seq r ! 1 = CMD_WRITE"
proof -
  note rg = effectTableLoc_range [OF assms(1)]
  consider "seq = 0" | "seq = ts" | "seq \<noteq> 0" "seq \<noteq> ts" by blast
  then show ?thesis
  proof cases
    case 1
    show ?thesis
      unfolding 1 effectFrameRead_edits effectEdits_zero [OF assms(1)]
      using assms(2) by simp
  next
    case 2
    show ?thesis
      unfolding 2 effectFrameRead_edits effectEdits_target [OF assms]
      using assms(2) rg by (cases "brightness opts") simp_all
  next
    case 3
    then show ?thesis
      using assms(2) by (simp add: effectFrameRead_edits effectEdits_other [OF assms(1)])
  qed
qed


lemma those_map_total:
  assumes "\<And>x. x \<in> set xs \<Longrightarrow> f x \<noteq> None"
  shows "\<exists>ys. those (map f xs) = Some ys \<and> length ys = length xs
            \<and> (\<forall>i<length xs. f (xs ! i) = Some (ys ! i))"
proof -
  have "those (map f xs) = Some (map (\<lambda>x. the (f x)) xs)"
    using assms by (intro those_map_Some) auto
  moreover have "\<forall>i<length xs. f (xs ! i) = Some (map (\<lambda>x. the (f x)) xs ! i)"
    using assms by (auto simp: nth_mem)
  ultimately show ?thesis by simp
qed

lemma buildFrame_not_None: "length p \<le> 15 \<Longrightarrow> buildFrame c s q p \<noteq> None"
  by (simp add: buildFrame_def Let_def)

lemma effectWriteFrames_complete:
  "gotConfig config \<Longrightarrow>
   effectWriteFrames tm n opts config
     = Some (map (\<lambda>seq. effectFrameRead n opts seq (the (config ! seq))) [0..<10])"
  unfolding effectWriteFrames_def by (rule those_map_Some) simp

lemma effectWriteFrames_template:
  "\<not> gotConfig config \<Longrightarrow>
   effectWriteFrames tm n opts config = those (map (effectFrameTemplate tm n opts) [0..<10])"
  by (simp add: effectWriteFrames_def)

lemma selfDefineWriteFrames_template:
  "\<not> gotConfig config \<Longrightarrow>
   selfDefineWriteFrames tm config = those (map (selfDefineFrameTemplate tm) [0..<10])"
  by (simp add: selfDefineWriteFrames_def)

lemma wfTemplates_cfg: "wfTemplates tm \<Longrightarrow> seq < 10 \<Longrightarrow> length (CFG_TEMPLATE tm ! seq) \<le> 15"
  by (simp add: wfTemplates_def list_all_length)

lemma effectFrameTemplate_Some:
  "wfTemplates tm \<Longrightarrow> seq < 10 \<Longrightarrow> effectFrameTemplate tm n opts seq \<noteq> None"
  unfolding effectFrameTemplate_def Let_def
  by (rule buildFrame_not_None) (auto simp: wfTemplates_cfg split: option.splits)

lemma selfDefineFrameTemplate_Some:
  "wfTemplates tm \<Longrightarrow> seq < 10 \<Longrightarrow> selfDefineFrameTemplate tm seq \<noteq> None"
  unfolding selfDefineFrameTemplate_def Let_def
  by (rule buildFrame_not_None) (auto simp: wfTemplates_cfg)

lemma paletteFrames_Some:
  assumes "wfTemplates tm"
  shows "\<exists>P. paletteFrames tm rgb = Some P \<and> length P = 37"
proof -
  have t: "\<And>i. i < length (PAL_TEMPLATE tm) \<Longrightarrow> length (PAL_TEMPLATE tm ! i) \<le> 15"
    using assms by (simp add: wfTemplates_def list_all_length)
  have z: "length (PAL_ZEROS tm) \<le> 15" "length (PAL_LAST tm) \<le> 15"
    using assms by (simp_all add: wfTemplates_def)
  define pay where "pay = (\<lambda>i. if i < length (PAL_TEMPLATE tm) then PAL_TEMPLATE tm ! i
                                  else if i = 36 then PAL_LAST tm else PAL_ZEROS tm)"
  define fr where "fr = (\<lambda>i. buildFrame CMD_COLOR SUBCMD_PALETTE i
                    (case rgb of None \<Rightarrow> pay i
                     | Some (r, g, b) \<Rightarrow>
                         if i = 1 then (pay i)[8 := u8 r, 9 := u8 g, 10 := u8 b, 12 := 0xff]
                         else pay i))"
  have p: "length (pay i) \<le> 15" for i using t z by (simp add: pay_def)
  have "fr i \<noteq> None" for i
    unfolding fr_def using p by (intro buildFrame_not_None) (auto split: option.splits)
  then have "\<exists>ys. those (map fr [0..<37]) = Some ys \<and> length ys = length [0..<37]
            \<and> (\<forall>i<length [0..<37]. fr ([0..<37] ! i) = Some (ys ! i))"
    by (intro those_map_total) simp
  moreover have "paletteFrames tm rgb = those (map fr [0..<37])"
    unfolding paletteFrames_def fr_def pay_def Let_def by (rule refl)
  ultimately have "\<exists>ys. paletteFrames tm rgb = Some ys \<and> length ys = length [0..<37]"
    by auto
  then show ?thesis by auto
qed


lemma setEffect_sent_prefix:
  assumes "n \<in> EFFECTS" and "readConfig dev = Some (config, dev1)"
    and "effectWriteFrames tm n opts config = Some W"
  shows "\<exists>rest. sent (snd (setEffect tm dev n opts)) = sent dev @ [READ_FRAME] @ W @ rest"
proof (cases "paletteFrames tm (colorRgb opts)")
  case None
  then have "sent (snd (setEffect tm dev n opts)) = sent dev @ [READ_FRAME] @ W @ []"
    using assms readConfig_sent [OF assms(2)]
    by (simp add: setEffect_def Let_def txBulk_sent)
  then show ?thesis by blast
next
  case (Some P)
  then have "sent (snd (setEffect tm dev n opts)) = sent dev @ [READ_FRAME] @ W @ (P @ [SAVE_FRAME])"
    using assms readConfig_sent [OF assms(2)]
    by (simp add: setEffect_def Let_def txBulk_sent savePhase_sent)
  then show ?thesis by blast
qed

lemma setEffect_sent:
  assumes "n \<in> EFFECTS" and "readConfig dev = Some (config, dev1)"
    and "effectWriteFrames tm n opts config = Some W"
    and "paletteFrames tm (colorRgb opts) = Some P"
  shows "fst (setEffect tm dev n opts) = Done"
    and "sent (snd (setEffect tm dev n opts)) = sent dev @ [READ_FRAME] @ W @ P @ [SAVE_FRAME]"
  using assms readConfig_sent [OF assms(2)]
  by (simp_all add: setEffect_def Let_def txBulk_sent savePhase_sent savePhase_Done)

lemma gotConfig_map_Some: "gotConfig (map (\<lambda>f. Some (g f)) W)"
  by (simp add: gotConfig_def list_all_iff)

lemma map_nth_10: "length W = 10 \<Longrightarrow> map (\<lambda>seq. W ! seq) [0..<10] = W"
  using map_nth [of W] by simp

text \<open>
  C2. For every effect with a table entry and every choice of brightness, speed, color and
  colorful: the ten write frames that \<open>setEffect\<close> builds from a completely read
  configuration (and sends after the read frame) are reproduced byte for byte when
  \<open>setEffect\<close> with the same parameters is applied to them as the next read result,
  whether they come back as they were sent or with any other command byte, READ included.
\<close>

theorem set_effect_idempotent:
  assumes "readConfig dev = Some (config, dev1)" and "gotConfig config"
    and "effectTableLoc n = Some (tgtSeq, tgtOff)"
  shows "\<exists>W. effectWriteFrames tm n opts config = Some W \<and> length W = 10
           \<and> (\<exists>rest. sent (snd (setEffect tm dev n opts)) = sent dev @ [READ_FRAME] @ W @ rest)
           \<and> effectWriteFrames tm n opts (map Some W) = Some W
           \<and> (\<forall>c. effectWriteFrames tm n opts (map (\<lambda>f. Some (f[1 := c])) W) = Some W)"
proof -
  define W where "W = map (\<lambda>seq. effectFrameRead n opts seq (the (config ! seq))) [0..<10]"
  have w: "effectWriteFrames tm n opts config = Some W"
    unfolding W_def using assms(2) by (rule effectWriteFrames_complete)
  have len: "length W = 10" by (simp add: W_def)
  have frag: "\<exists>r. W ! seq = effectFrameRead n opts seq r \<and> length r \<ge> 20" if "seq < 10" for seq
  proof -
    from complete_fragment [OF assms(1,2) that] obtain r where
      "config ! seq = Some r" "length r \<ge> 20" by (auto simp: wfFragment_def)
    then show ?thesis using that by (auto simp: W_def)
  qed
  have echo: "effectWriteFrames tm n opts (map (\<lambda>f. Some (f[1 := c])) W) = Some W" for c
  proof -
    have "effectWriteFrames tm n opts (map (\<lambda>f. Some (f[1 := c])) W)
            = Some (map (\<lambda>seq. effectFrameRead n opts seq
                                  (the (map (\<lambda>f. Some (f[1 := c])) W ! seq))) [0..<10])"
      using gotConfig_map_Some by (rule effectWriteFrames_complete)
    also have "map (\<lambda>seq. effectFrameRead n opts seq
                                  (the (map (\<lambda>f. Some (f[1 := c])) W ! seq))) [0..<10]
                 = map (\<lambda>seq. W ! seq) [0..<10]"
    proof (rule map_cong [OF refl])
      fix seq assume "seq \<in> set [0..<10]"
      then have s: "seq < 10" by simp
      from frag [OF s] obtain r where r: "W ! seq = effectFrameRead n opts seq r" "length r \<ge> 20"
        by blast
      have "the (map (\<lambda>f. Some (f[1 := c])) W ! seq) = (W ! seq)[1 := c]"
        using s len by simp
      then show "effectFrameRead n opts seq (the (map (\<lambda>f. Some (f[1 := c])) W ! seq)) = W ! seq"
        using effectFrameRead_echo [OF assms(3) r(2), of opts seq c] r(1) by simp
    qed
    also have "\<dots> = W" using len by (rule map_nth_10)
    finally show ?thesis .
  qed
  have ms: "map (\<lambda>f. Some (f[1 := CMD_WRITE])) W = map Some W"
  proof (rule nth_equalityI)
    show "length (map (\<lambda>f. Some (f[1 := CMD_WRITE])) W) = length (map Some W)" by simp
  next
    fix i assume "i < length (map (\<lambda>f. Some (f[1 := CMD_WRITE])) W)"
    then have i: "i < 10" using len by simp
    from frag [OF i] obtain r where r: "W ! i = effectFrameRead n opts i r" "length r \<ge> 20"
      by blast
    have "W ! i ! 1 = CMD_WRITE"
      using effectFrameRead_command [OF assms(3) r(2), of opts i] r(1) by simp
    then have "(W ! i)[1 := CMD_WRITE] = W ! i" by (metis list_update_id)
    then show "map (\<lambda>f. Some (f[1 := CMD_WRITE])) W ! i = map Some W ! i"
      using i len by simp
  qed
  have same: "effectWriteFrames tm n opts (map Some W) = Some W"
    using echo [of CMD_WRITE] by (simp only: ms)
  from setEffect_sent_prefix [OF effectTableLoc_EFFECTS [OF assms(3)] assms(1) w]
  obtain rest where pre: "sent (snd (setEffect tm dev n opts)) = sent dev @ [READ_FRAME] @ W @ rest"
    by blast
  show ?thesis
  proof (rule exI [of _ W], intro conjI allI)
    show "effectWriteFrames tm n opts config = Some W" by (rule w)
    show "length W = 10" by (rule len)
    show "\<exists>rest. sent (snd (setEffect tm dev n opts)) = sent dev @ [READ_FRAME] @ W @ rest"
      using pre by blast
    show "effectWriteFrames tm n opts (map Some W) = Some W" by (rule same)
    show "effectWriteFrames tm n opts (map (\<lambda>f. Some (f[1 := c])) W) = Some W" for c
      by (rule echo)
  qed
qed


theorem set_effect_idempotent_witness:
  "effectTableLoc 3 = Some (4, 11)
   \<and> (\<exists>W. effectWriteFrames exTemplates 3 exOptions (map (\<lambda>s. Some (exFragment s)) [0..<10]) = Some W
          \<and> length W = 10
          \<and> effectWriteFrames exTemplates 3 exOptions (map Some W) = Some W
          \<and> effectWriteFrames exTemplates 3 exOptions (map (\<lambda>f. Some (f[1 := CMD_READ])) W) = Some W)"
proof -
  have loc: "effectTableLoc 3 = Some (4, 11)" by (simp add: effectTableLoc_def)
  from set_effect_idempotent [OF exDevice_read exDevice_complete loc, of exTemplates exOptions]
  obtain W where
    "effectWriteFrames exTemplates 3 exOptions (map (\<lambda>s. Some (exFragment s)) [0..<10]) = Some W"
    "length W = 10"
    "effectWriteFrames exTemplates 3 exOptions (map Some W) = Some W"
    "\<forall>c. effectWriteFrames exTemplates 3 exOptions (map (\<lambda>f. Some (f[1 := c])) W) = Some W"
    by blast
  with loc show ?thesis by blast
qed

lemma effectFrameRead_speed_byte:
  assumes "effectTableLoc n = Some (ts, off)" and "length r \<ge> 20"
  shows "effectFrameRead n opts ts r ! (off + 1) = newSpeedByte opts (r ! (off + 1))"
  unfolding effectFrameRead_edits effectEdits_target [OF assms]
  using effectTableLoc_range [OF assms(1)] assms(2)
  by (cases "brightness opts") simp_all

lemma effectFrameTemplate_speed_byte:
  assumes "effectTableLoc n = Some (ts, off)" and "length (CFG_TEMPLATE tm ! ts) = 15"
  shows "\<exists>f. effectFrameTemplate tm n opts ts = Some f
           \<and> f ! (off + 1) = newSpeedByte opts (CFG_TEMPLATE tm ! ts ! (off - 3))"
proof -
  note rg = effectTableLoc_range [OF assms(1)]
  define p where "p = CFG_TEMPLATE tm ! ts"
  define p1 where "p1 = (case brightness opts of Some b \<Rightarrow> p[off - 4 := u8 b] | None \<Rightarrow> p)"
  define p2 where "p2 = p1[off - 4 + 1 := newSpeedByte opts (p1 ! (off - 4 + 1))]"
  have l: "length p = 15" "length p1 = 15" "length p2 = 15"
    using assms(2) by (simp_all add: p_def p1_def p2_def split: option.splits)
  have o3: "off - 4 + 1 = off - 3" using rg by arith
  have ne: "off - 4 \<noteq> off - 3" using rg by arith
  have rd: "p1 ! (off - 4 + 1) = p ! (off - 3)"
    unfolding o3 using ne by (cases "brightness opts") (simp_all add: p1_def)
  have e: "effectFrameTemplate tm n opts ts = buildFrame CMD_WRITE SUBCMD_CONFIG ts p2"
    using rg assms(1)
    by (cases "brightness opts") (simp_all add: effectFrameTemplate_def Let_def p_def p1_def p2_def)
  have o: "off + 1 = 4 + (off - 4 + 1)" "off - 4 + 1 < 15" using rg by arith+
  have "(REPORT_ID # CMD_WRITE # SUBCMD_CONFIG # of_nat ts # p2
            @ [checksum (REPORT_ID # CMD_WRITE # SUBCMD_CONFIG # of_nat ts # p2)]) ! (off + 1)
          = p2 ! (off - 4 + 1)"
    unfolding o(1) using o(2) l(3) by (simp add: nth_append)
  also have "\<dots> = newSpeedByte opts (p ! (off - 3))"
    using o(2) l(2) rd by (simp add: p2_def)
  finally show ?thesis
    unfolding e buildFrame_15 [OF l(3)] p_def by blast
qed

lemma newSpeedByte_colorful:
  "snd (decodeSpeedByte (newSpeedByte opts b))
     = (if colorful opts then True else (colorRgb opts = None \<and> snd (decodeSpeedByte b)))"
  by (simp add: newSpeedByte_decoded)

lemma newSpeedByte_custom_color:
  "colorRgb opts \<noteq> None \<Longrightarrow> \<not> colorful opts \<Longrightarrow> speed opts = None \<Longrightarrow>
   newSpeedByte opts b = b AND 0xF0"
  by (auto simp: newSpeedByte_keep_speed)


text \<open>
  C9. For an effect with a table entry, the speed byte of the write frame that
  \<open>setEffect\<close> sends for the fragment of the parameter pair is \<open>newSpeedByte\<close> of the
  byte that was read. With a custom color, colorful off and no speed it is the read byte
  with its low nibble cleared, whatever that nibble was. The colorful state of the read
  byte is kept when neither a color nor colorful is given; with a color (colorful off) the
  result is single-color and with colorful it is colorful, whatever was read. The template
  branch rewrites the template's byte by the same rule.
\<close>

theorem set_effect_speed_byte:
  assumes "readConfig dev = Some (config, dev1)" and "gotConfig config"
    and "effectTableLoc n = Some (tgtSeq, tgtOff)" and "config ! tgtSeq = Some r"
  shows "\<exists>w. sent (snd (setEffect tm dev n opts)) ! (length (sent dev) + 1 + tgtSeq) = w
     \<and> w ! (tgtOff + 1) = newSpeedByte opts (r ! (tgtOff + 1))
     \<and> (colorRgb opts \<noteq> None \<and> \<not> colorful opts \<and> speed opts = None \<longrightarrow>
           w ! (tgtOff + 1) = r ! (tgtOff + 1) AND 0xF0)
     \<and> (colorRgb opts = None \<and> \<not> colorful opts \<longrightarrow>
           snd (decodeSpeedByte (w ! (tgtOff + 1))) = snd (decodeSpeedByte (r ! (tgtOff + 1))))
     \<and> (colorRgb opts \<noteq> None \<and> \<not> colorful opts \<longrightarrow> \<not> snd (decodeSpeedByte (w ! (tgtOff + 1))))
     \<and> (colorful opts \<longrightarrow> snd (decodeSpeedByte (w ! (tgtOff + 1))))
     \<and> (length (CFG_TEMPLATE tm ! tgtSeq) = 15 \<longrightarrow>
           (\<exists>f. effectFrameTemplate tm n opts tgtSeq = Some f
              \<and> f ! (tgtOff + 1) = newSpeedByte opts (CFG_TEMPLATE tm ! tgtSeq ! (tgtOff - 3))))"
proof -
  note rg = effectTableLoc_range [OF assms(3)]
  have ts: "tgtSeq < 10" using rg by simp
  from complete_fragment [OF assms(1,2) ts] assms(4)
  have len: "length r \<ge> 20" by (auto simp: wfFragment_def)
  define W where "W = map (\<lambda>seq. effectFrameRead n opts seq (the (config ! seq))) [0..<10]"
  have w: "effectWriteFrames tm n opts config = Some W"
    unfolding W_def using assms(2) by (rule effectWriteFrames_complete)
  from setEffect_sent_prefix [OF effectTableLoc_EFFECTS [OF assms(3)] assms(1) w]
  obtain rest where "sent (snd (setEffect tm dev n opts)) = sent dev @ [READ_FRAME] @ W @ rest"
    by blast
  then have "sent (snd (setEffect tm dev n opts)) ! (length (sent dev) + 1 + tgtSeq) = W ! tgtSeq"
    using ts by (simp add: nth_append W_def)
  also have "\<dots> = effectFrameRead n opts tgtSeq r"
    using ts assms(4) by (simp add: W_def)
  finally have pos: "sent (snd (setEffect tm dev n opts)) ! (length (sent dev) + 1 + tgtSeq)
                       = effectFrameRead n opts tgtSeq r" .
  note sb = effectFrameRead_speed_byte [OF assms(3) len, of opts]
  show ?thesis
  proof (rule exI [of _ "effectFrameRead n opts tgtSeq r"], intro conjI impI)
    show "sent (snd (setEffect tm dev n opts)) ! (length (sent dev) + 1 + tgtSeq)
            = effectFrameRead n opts tgtSeq r"
      by (rule pos)
    show "effectFrameRead n opts tgtSeq r ! (tgtOff + 1) = newSpeedByte opts (r ! (tgtOff + 1))"
      by (rule sb)
    show "effectFrameRead n opts tgtSeq r ! (tgtOff + 1) = r ! (tgtOff + 1) AND 0xF0"
      if "colorRgb opts \<noteq> None \<and> \<not> colorful opts \<and> speed opts = None"
    proof -
      from that have "newSpeedByte opts (r ! (tgtOff + 1)) = r ! (tgtOff + 1) AND 0xF0"
        by (intro newSpeedByte_custom_color) simp_all
      then show ?thesis by (simp only: sb)
    qed
    show "snd (decodeSpeedByte (effectFrameRead n opts tgtSeq r ! (tgtOff + 1)))
            = snd (decodeSpeedByte (r ! (tgtOff + 1)))"
      if "colorRgb opts = None \<and> \<not> colorful opts"
      unfolding sb using that by (simp add: newSpeedByte_colorful)
    show "\<not> snd (decodeSpeedByte (effectFrameRead n opts tgtSeq r ! (tgtOff + 1)))"
      if "colorRgb opts \<noteq> None \<and> \<not> colorful opts"
      unfolding sb using that by (simp add: newSpeedByte_colorful)
    show "snd (decodeSpeedByte (effectFrameRead n opts tgtSeq r ! (tgtOff + 1)))"
      if "colorful opts"
      unfolding sb using that by (simp add: newSpeedByte_colorful)
    show "\<exists>f. effectFrameTemplate tm n opts tgtSeq = Some f
              \<and> f ! (tgtOff + 1) = newSpeedByte opts (CFG_TEMPLATE tm ! tgtSeq ! (tgtOff - 3))"
      if "length (CFG_TEMPLATE tm ! tgtSeq) = 15"
      using assms(3) that by (rule effectFrameTemplate_speed_byte)
  qed
qed

theorem set_effect_speed_byte_witness:
  "effectTableLoc 3 = Some (4, 11)
   \<and> colorRgb exOptions \<noteq> None \<and> \<not> colorful exOptions \<and> speed exOptions = None
   \<and> exFragment 4 ! 12 = 0x47
   \<and> sent (snd (setEffect exTemplates exDevice 3 exOptions)) ! 5 ! 12 = 0x40"
proof -
  have loc: "effectTableLoc 3 = Some (4, 11)" by (simp add: effectTableLoc_def)
  have f4: "map (\<lambda>s. Some (exFragment s)) [0..<10] ! 4 = Some (exFragment 4)" by code_simp
  have o: "colorRgb exOptions \<noteq> None \<and> \<not> colorful exOptions \<and> speed exOptions = None"
    by (simp add: exOptions_def)
  have b: "exFragment 4 ! 12 = 0x47" by (simp add: exFragment_def)
  have i: "length (sent exDevice) + 1 + 4 = 5" "(11::nat) + 1 = 12" by (simp_all add: exDevice_def)
  from set_effect_speed_byte [OF exDevice_read exDevice_complete loc f4, of exTemplates exOptions] o
  have "sent (snd (setEffect exTemplates exDevice 3 exOptions)) ! 5 ! 12 = exFragment 4 ! 12 AND 0xF0"
    unfolding i by blast
  then have "sent (snd (setEffect exTemplates exDevice 3 exOptions)) ! 5 ! 12 = 0x40"
    by (simp add: b)
  with loc o b show ?thesis by blast
qed

lemma buildFrame_bytes:
  "length p \<le> 15 \<Longrightarrow>
   buildFrame c s q p =
     Some ([0x13, c, s, of_nat q] @ p @ replicate (15 - length p) 0
           @ [sum_list ([0x13, c, s, of_nat q] @ p @ replicate (15 - length p) 0)])"
  by (simp add: buildFrame_def Let_def checksum_def REPORT_ID_def)

lemma effectFrameTemplate_zero:
  "effectFrameTemplate tm n opts 0
     = buildFrame CMD_WRITE SUBCMD_CONFIG 0
         ((CFG_TEMPLATE tm ! 0)[4 := 0x01, 10 := 0x00, 11 := u8 n,
             13 := (if colorRgb opts \<noteq> None \<or> colorful opts then 0x01 else 0x03)])"
proof (cases "effectTableLoc n")
  case None
  then show ?thesis by (simp add: effectFrameTemplate_def Let_def)
next
  case (Some loc)
  obtain ts off where l: "loc = (ts, off)" by (cases loc) auto
  from effectTableLoc_range [of n ts off] Some l have "ts \<noteq> 0" by simp
  with Some l show ?thesis by (simp add: effectFrameTemplate_def Let_def)
qed

lemma effectFrameTemplate_other:
  assumes "seq \<noteq> 0" and "\<forall>off. effectTableLoc n \<noteq> Some (seq, off)"
  shows "effectFrameTemplate tm n opts seq
           = buildFrame CMD_WRITE SUBCMD_CONFIG seq (CFG_TEMPLATE tm ! seq)"
proof (cases "effectTableLoc n")
  case None
  with assms(1) show ?thesis by (simp add: effectFrameTemplate_def Let_def)
next
  case (Some loc)
  obtain ts off where l: "loc = (ts, off)" by (cases loc) auto
  with Some assms(2) have "seq \<noteq> ts" by auto
  with Some l assms(1) show ?thesis by (simp add: effectFrameTemplate_def Let_def)
qed

lemma effectFrameTemplate_target:
  assumes "effectTableLoc n = Some (seq, off)"
  shows "effectFrameTemplate tm n opts seq
           = buildFrame CMD_WRITE SUBCMD_CONFIG seq
               ((case brightness opts of
                   Some b \<Rightarrow> (CFG_TEMPLATE tm ! seq)[off - 4 := u8 b]
                 | None \<Rightarrow> CFG_TEMPLATE tm ! seq)
                [off - 3 :=
                   encodeSpeedByte
                     (case speed opts of
                        Some s \<Rightarrow> s
                      | None \<Rightarrow> fst (decodeSpeedByte (CFG_TEMPLATE tm ! seq ! (off - 3))))
                     (if colorful opts then True
                      else (colorRgb opts = None
                              \<and> snd (decodeSpeedByte (CFG_TEMPLATE tm ! seq ! (off - 3)))))])"
proof -
  note rg = effectTableLoc_range [OF assms]
  have s0: "seq \<noteq> 0" using rg by simp
  have o3: "off - 4 + 1 = off - 3" and ne: "off - 4 \<noteq> off - 3" using rg by arith+
  show ?thesis
    using assms s0 ne
    by (cases "brightness opts"; cases "speed opts")
       (simp_all add: effectFrameTemplate_def Let_def newSpeedByte_def o3 del: One_nat_def)
qed

lemma selfDefineFrameTemplate_bytes:
  "selfDefineFrameTemplate tm 0
     = buildFrame CMD_WRITE SUBCMD_CONFIG 0
         ((CFG_TEMPLATE tm ! 0)[4 := 0x01, 10 := 0x00, 11 := 21, 13 := 0x01])"
  "seq \<noteq> 0 \<Longrightarrow>
   selfDefineFrameTemplate tm seq = buildFrame CMD_WRITE SUBCMD_CONFIG seq (CFG_TEMPLATE tm ! seq)"
  by (simp_all add: selfDefineFrameTemplate_def Let_def SELF_DEFINE_EFFECT_def u8_def)


lemma template_frame_bytes:
  assumes "wfTemplates tm" and "seq < 10" and "effectFrameTemplate tm n opts seq = Some w"
  shows "\<exists>p. w = [0x13, 0x04, 0x0A, of_nat seq] @ p @ replicate (15 - length p) 0
                   @ [sum_list ([0x13, 0x04, 0x0A, of_nat seq] @ p @ replicate (15 - length p) 0)]
           \<and> (seq = 0 \<longrightarrow>
                 p = (CFG_TEMPLATE tm ! 0)[4 := 0x01, 10 := 0x00, 11 := u8 n,
                        13 := (if colorRgb opts \<noteq> None \<or> colorful opts then 0x01 else 0x03)])
           \<and> (seq \<noteq> 0 \<and> (\<forall>off. effectTableLoc n \<noteq> Some (seq, off)) \<longrightarrow>
                 p = CFG_TEMPLATE tm ! seq)
           \<and> (\<forall>off. effectTableLoc n = Some (seq, off) \<longrightarrow>
                 p = (case brightness opts of
                        Some b \<Rightarrow> (CFG_TEMPLATE tm ! seq)[off - 4 := u8 b]
                      | None \<Rightarrow> CFG_TEMPLATE tm ! seq)
                     [off - 3 :=
                        encodeSpeedByte
                          (case speed opts of
                             Some s \<Rightarrow> s
                           | None \<Rightarrow> fst (decodeSpeedByte (CFG_TEMPLATE tm ! seq ! (off - 3))))
                          (if colorful opts then True
                           else (colorRgb opts = None
                                   \<and> snd (decodeSpeedByte (CFG_TEMPLATE tm ! seq ! (off - 3)))))])"
proof -
  note l = wfTemplates_cfg [OF assms(1,2)]
  consider "seq = 0" | off where "effectTableLoc n = Some (seq, off)"
    | "seq \<noteq> 0" "\<forall>off. effectTableLoc n \<noteq> Some (seq, off)"
    by blast
  then show ?thesis
  proof cases
    case 1
    define p where "p = (CFG_TEMPLATE tm ! 0)[4 := 0x01, 10 := 0x00, 11 := u8 n,
                        13 := (if colorRgb opts \<noteq> None \<or> colorful opts then 0x01 else 0x03)]"
    have lp: "length p \<le> 15" using l 1 by (simp add: p_def)
    have "Some w = buildFrame CMD_WRITE SUBCMD_CONFIG seq p"
      using assms(3) unfolding 1 p_def by (simp only: effectFrameTemplate_zero)
    then have w: "w = [0x13, 0x04, 0x0A, of_nat seq] @ p @ replicate (15 - length p) 0
                   @ [sum_list ([0x13, 0x04, 0x0A, of_nat seq] @ p @ replicate (15 - length p) 0)]"
      by (simp add: buildFrame_bytes [OF lp] CMD_WRITE_def SUBCMD_CONFIG_def)
    have no: "effectTableLoc n \<noteq> Some (seq, off)" for off
      using effectTableLoc_range [of n seq off] 1 by auto
    show ?thesis
      by (rule exI [of _ p]) (use w no 1 in \<open>simp add: p_def\<close>)
  next
    case 2
    note rg = effectTableLoc_range [OF 2]
    define p where "p = (case brightness opts of
                        Some b \<Rightarrow> (CFG_TEMPLATE tm ! seq)[off - 4 := u8 b]
                      | None \<Rightarrow> CFG_TEMPLATE tm ! seq)
                     [off - 3 :=
                        encodeSpeedByte
                          (case speed opts of
                             Some s \<Rightarrow> s
                           | None \<Rightarrow> fst (decodeSpeedByte (CFG_TEMPLATE tm ! seq ! (off - 3))))
                          (if colorful opts then True
                           else (colorRgb opts = None
                                   \<and> snd (decodeSpeedByte (CFG_TEMPLATE tm ! seq ! (off - 3)))))]"
    have lp: "length p \<le> 15" using l by (cases "brightness opts") (simp_all add: p_def)
    have "Some w = buildFrame CMD_WRITE SUBCMD_CONFIG seq p"
      using assms(3) unfolding p_def by (simp only: effectFrameTemplate_target [OF 2])
    then have w: "w = [0x13, 0x04, 0x0A, of_nat seq] @ p @ replicate (15 - length p) 0
                   @ [sum_list ([0x13, 0x04, 0x0A, of_nat seq] @ p @ replicate (15 - length p) 0)]"
      by (simp add: buildFrame_bytes [OF lp] CMD_WRITE_def SUBCMD_CONFIG_def)
    have s0: "seq \<noteq> 0" using rg by simp
    have uniq: "off' = off" if "effectTableLoc n = Some (seq, off')" for off'
      using that 2 by simp
    show ?thesis
    proof (rule exI [of _ p], intro conjI impI allI)
      show "w = [0x13, 0x04, 0x0A, of_nat seq] @ p @ replicate (15 - length p) 0
                   @ [sum_list ([0x13, 0x04, 0x0A, of_nat seq] @ p @ replicate (15 - length p) 0)]"
        by (rule w)
    next
      assume "seq = 0"
      with s0 show "p = (CFG_TEMPLATE tm ! 0)[4 := 0x01, 10 := 0x00, 11 := u8 n,
                        13 := (if colorRgb opts \<noteq> None \<or> colorful opts then 0x01 else 0x03)]"
        by simp
    next
      assume "seq \<noteq> 0 \<and> (\<forall>off. effectTableLoc n \<noteq> Some (seq, off))"
      with 2 show "p = CFG_TEMPLATE tm ! seq" by simp
    next
      fix off'
      assume "effectTableLoc n = Some (seq, off')"
      then have "off' = off" by (rule uniq)
      then show "p = (case brightness opts of
                        Some b \<Rightarrow> (CFG_TEMPLATE tm ! seq)[off' - 4 := u8 b]
                      | None \<Rightarrow> CFG_TEMPLATE tm ! seq)
                     [off' - 3 :=
                        encodeSpeedByte
                          (case speed opts of
                             Some s \<Rightarrow> s
                           | None \<Rightarrow> fst (decodeSpeedByte (CFG_TEMPLATE tm ! seq ! (off' - 3))))
                          (if colorful opts then True
                           else (colorRgb opts = None
                                   \<and> snd (decodeSpeedByte (CFG_TEMPLATE tm ! seq ! (off' - 3)))))]"
        by (simp only: p_def)
    qed
  next
    case 3
    define p where "p = CFG_TEMPLATE tm ! seq"
    have lp: "length p \<le> 15" using l by (simp add: p_def)
    have "Some w = buildFrame CMD_WRITE SUBCMD_CONFIG seq p"
      using assms(3) unfolding p_def by (simp only: effectFrameTemplate_other [OF 3])
    then have w: "w = [0x13, 0x04, 0x0A, of_nat seq] @ p @ replicate (15 - length p) 0
                   @ [sum_list ([0x13, 0x04, 0x0A, of_nat seq] @ p @ replicate (15 - length p) 0)]"
      by (simp add: buildFrame_bytes [OF lp] CMD_WRITE_def SUBCMD_CONFIG_def)
    show ?thesis
      by (rule exI [of _ p]) (use w 3 in \<open>simp add: p_def\<close>)
  qed
qed

lemma selfDefine_template_frame_bytes:
  assumes "wfTemplates tm" and "seq < 10" and "selfDefineFrameTemplate tm seq = Some w"
  shows "\<exists>p. w = [0x13, 0x04, 0x0A, of_nat seq] @ p @ replicate (15 - length p) 0
                   @ [sum_list ([0x13, 0x04, 0x0A, of_nat seq] @ p @ replicate (15 - length p) 0)]
           \<and> (seq = 0 \<longrightarrow> p = (CFG_TEMPLATE tm ! 0)[4 := 0x01, 10 := 0x00, 11 := 21, 13 := 0x01])
           \<and> (seq \<noteq> 0 \<longrightarrow> p = CFG_TEMPLATE tm ! seq)"
proof -
  note l = wfTemplates_cfg [OF assms(1,2)]
  define p where "p = (if seq = 0 then (CFG_TEMPLATE tm ! 0)[4 := 0x01, 10 := 0x00, 11 := 21, 13 := 0x01]
                        else CFG_TEMPLATE tm ! seq)"
  have lp: "length p \<le> 15" using l by (auto simp: p_def)
  have "selfDefineFrameTemplate tm seq = buildFrame CMD_WRITE SUBCMD_CONFIG seq p"
    by (cases "seq = 0") (simp_all add: p_def selfDefineFrameTemplate_bytes)
  with assms(3) have "w = [0x13, 0x04, 0x0A, of_nat seq] @ p @ replicate (15 - length p) 0
                   @ [sum_list ([0x13, 0x04, 0x0A, of_nat seq] @ p @ replicate (15 - length p) 0)]"
    by (simp add: buildFrame_bytes [OF lp] CMD_WRITE_def SUBCMD_CONFIG_def)
  then show ?thesis
    by (intro exI [of _ p]) (simp add: p_def)
qed

text \<open>
  C4. When the read is incomplete, \<open>setSleepTimer\<close> stops with the read error, having
  sent the read frame and nothing else; \<open>setEffect\<close> (for a known effect) and
  \<open>applyPerKey\<close> run to their end: after the read frame they send ten configuration
  frames, then the palette or per-key frames and the save frame. Configuration frame
  \<open>seq\<close> is, byte for byte, the header \<open>13 04 0A seq\<close>, a payload padded with zeros
  to 15 bytes and the sum of these 19 bytes, and the payload is entry \<open>seq\<close> of the
  template: unchanged, or for fragment 0 with the confirm flag, the apply flag, the effect
  number and the color mode stored, or for the fragment of the effect's parameter pair
  with the brightness and the re-encoded speed byte stored. Nothing of it depends on what
  was read.
\<close>

theorem incomplete_read:
  assumes "readConfig dev = Some (config, dev1)" and "\<not> gotConfig config"
    and "wfTemplates tm" and "n \<in> EFFECTS"
  shows "setSleepTimer dev minutes = (ReadError, dev1) \<and> sent dev1 = sent dev @ [READ_FRAME]
    \<and> (\<exists>W P. length W = 10 \<and> (\<forall>seq<10. effectFrameTemplate tm n opts seq = Some (W ! seq))
          \<and> (\<forall>seq<10. \<exists>p.
                W ! seq = [0x13, 0x04, 0x0A, of_nat seq] @ p @ replicate (15 - length p) 0
                   @ [sum_list ([0x13, 0x04, 0x0A, of_nat seq] @ p @ replicate (15 - length p) 0)]
                \<and> (seq = 0 \<longrightarrow>
                      p = (CFG_TEMPLATE tm ! 0)[4 := 0x01, 10 := 0x00, 11 := u8 n,
                             13 := (if colorRgb opts \<noteq> None \<or> colorful opts then 0x01 else 0x03)])
                \<and> (seq \<noteq> 0 \<and> (\<forall>off. effectTableLoc n \<noteq> Some (seq, off)) \<longrightarrow>
                      p = CFG_TEMPLATE tm ! seq)
                \<and> (\<forall>off. effectTableLoc n = Some (seq, off) \<longrightarrow>
                      p = (case brightness opts of
                             Some b \<Rightarrow> (CFG_TEMPLATE tm ! seq)[off - 4 := u8 b]
                           | None \<Rightarrow> CFG_TEMPLATE tm ! seq)
                          [off - 3 :=
                             encodeSpeedByte
                               (case speed opts of
                                  Some s \<Rightarrow> s
                                | None \<Rightarrow> fst (decodeSpeedByte (CFG_TEMPLATE tm ! seq ! (off - 3))))
                               (if colorful opts then True
                                else (colorRgb opts = None
                                        \<and> snd (decodeSpeedByte (CFG_TEMPLATE tm ! seq ! (off - 3)))))]))
          \<and> paletteFrames tm (colorRgb opts) = Some P
          \<and> fst (setEffect tm dev n opts) = Done
          \<and> sent (snd (setEffect tm dev n opts)) = sent dev @ [READ_FRAME] @ W @ P @ [SAVE_FRAME])
    \<and> (\<exists>W F. length W = 10 \<and> (\<forall>seq<10. selfDefineFrameTemplate tm seq = Some (W ! seq))
          \<and> (\<forall>seq<10. \<exists>p.
                W ! seq = [0x13, 0x04, 0x0A, of_nat seq] @ p @ replicate (15 - length p) 0
                   @ [sum_list ([0x13, 0x04, 0x0A, of_nat seq] @ p @ replicate (15 - length p) 0)]
                \<and> (seq = 0 \<longrightarrow>
                      p = (CFG_TEMPLATE tm ! 0)[4 := 0x01, 10 := 0x00, 11 := 21, 13 := 0x01])
                \<and> (seq \<noteq> 0 \<longrightarrow> p = CFG_TEMPLATE tm ! seq))
          \<and> perKeyFrames kc = Some F
          \<and> fst (applyPerKey tm dev kc) = Done
          \<and> sent (snd (applyPerKey tm dev kc)) = sent dev @ [READ_FRAME] @ W @ F @ [SAVE_FRAME])"
proof (intro conjI)
  show "setSleepTimer dev minutes = (ReadError, dev1)"
    using assms(1,2) by (simp add: setSleepTimer_def Let_def)
  show "sent dev1 = sent dev @ [READ_FRAME]"
    using assms(1) by (rule readConfig_sent)
next
  have "\<exists>W. those (map (effectFrameTemplate tm n opts) [0..<10]) = Some W
             \<and> length W = length [0..<10]
             \<and> (\<forall>i<length [0..<10]. effectFrameTemplate tm n opts ([0..<10] ! i) = Some (W ! i))"
    using assms(3) by (intro those_map_total effectFrameTemplate_Some) simp_all
  then obtain W where
    w: "those (map (effectFrameTemplate tm n opts) [0..<10]) = Some W" "length W = 10"
    and wn: "\<forall>seq<10. effectFrameTemplate tm n opts seq = Some (W ! seq)"
    by auto
  from paletteFrames_Some [OF assms(3)] obtain P where
    p: "paletteFrames tm (colorRgb opts) = Some P" by blast
  have e: "effectWriteFrames tm n opts config = Some W"
    using w(1) assms(2) by (simp add: effectWriteFrames_template)
  note s = setEffect_sent [OF assms(4,1) e p]
  show "\<exists>W P. length W = 10 \<and> (\<forall>seq<10. effectFrameTemplate tm n opts seq = Some (W ! seq))
          \<and> (\<forall>seq<10. \<exists>p.
                W ! seq = [0x13, 0x04, 0x0A, of_nat seq] @ p @ replicate (15 - length p) 0
                   @ [sum_list ([0x13, 0x04, 0x0A, of_nat seq] @ p @ replicate (15 - length p) 0)]
                \<and> (seq = 0 \<longrightarrow>
                      p = (CFG_TEMPLATE tm ! 0)[4 := 0x01, 10 := 0x00, 11 := u8 n,
                             13 := (if colorRgb opts \<noteq> None \<or> colorful opts then 0x01 else 0x03)])
                \<and> (seq \<noteq> 0 \<and> (\<forall>off. effectTableLoc n \<noteq> Some (seq, off)) \<longrightarrow>
                      p = CFG_TEMPLATE tm ! seq)
                \<and> (\<forall>off. effectTableLoc n = Some (seq, off) \<longrightarrow>
                      p = (case brightness opts of
                             Some b \<Rightarrow> (CFG_TEMPLATE tm ! seq)[off - 4 := u8 b]
                           | None \<Rightarrow> CFG_TEMPLATE tm ! seq)
                          [off - 3 :=
                             encodeSpeedByte
                               (case speed opts of
                                  Some s \<Rightarrow> s
                                | None \<Rightarrow> fst (decodeSpeedByte (CFG_TEMPLATE tm ! seq ! (off - 3))))
                               (if colorful opts then True
                                else (colorRgb opts = None
                                        \<and> snd (decodeSpeedByte (CFG_TEMPLATE tm ! seq ! (off - 3)))))]))
          \<and> paletteFrames tm (colorRgb opts) = Some P
          \<and> fst (setEffect tm dev n opts) = Done
          \<and> sent (snd (setEffect tm dev n opts)) = sent dev @ [READ_FRAME] @ W @ P @ [SAVE_FRAME]"
  proof (rule exI [of _ W], rule exI [of _ P], intro conjI allI impI)
    show "length W = 10" by (rule w(2))
    show "effectFrameTemplate tm n opts seq = Some (W ! seq)" if "seq < 10" for seq
      using wn that by blast
    show "paletteFrames tm (colorRgb opts) = Some P" by (rule p)
    show "fst (setEffect tm dev n opts) = Done" by (rule s(1))
    show "sent (snd (setEffect tm dev n opts)) = sent dev @ [READ_FRAME] @ W @ P @ [SAVE_FRAME]"
      by (rule s(2))
  next
    fix seq :: nat
    assume q: "seq < 10"
    with wn have "effectFrameTemplate tm n opts seq = Some (W ! seq)" by blast
    with assms(3) q show "\<exists>p.
                W ! seq = [0x13, 0x04, 0x0A, of_nat seq] @ p @ replicate (15 - length p) 0
                   @ [sum_list ([0x13, 0x04, 0x0A, of_nat seq] @ p @ replicate (15 - length p) 0)]
                \<and> (seq = 0 \<longrightarrow>
                      p = (CFG_TEMPLATE tm ! 0)[4 := 0x01, 10 := 0x00, 11 := u8 n,
                             13 := (if colorRgb opts \<noteq> None \<or> colorful opts then 0x01 else 0x03)])
                \<and> (seq \<noteq> 0 \<and> (\<forall>off. effectTableLoc n \<noteq> Some (seq, off)) \<longrightarrow>
                      p = CFG_TEMPLATE tm ! seq)
                \<and> (\<forall>off. effectTableLoc n = Some (seq, off) \<longrightarrow>
                      p = (case brightness opts of
                             Some b \<Rightarrow> (CFG_TEMPLATE tm ! seq)[off - 4 := u8 b]
                           | None \<Rightarrow> CFG_TEMPLATE tm ! seq)
                          [off - 3 :=
                             encodeSpeedByte
                               (case speed opts of
                                  Some s \<Rightarrow> s
                                | None \<Rightarrow> fst (decodeSpeedByte (CFG_TEMPLATE tm ! seq ! (off - 3))))
                               (if colorful opts then True
                                else (colorRgb opts = None
                                        \<and> snd (decodeSpeedByte (CFG_TEMPLATE tm ! seq ! (off - 3)))))])"
      by (rule template_frame_bytes)
  qed
next
  have "\<exists>W. those (map (selfDefineFrameTemplate tm) [0..<10]) = Some W
             \<and> length W = length [0..<10]
             \<and> (\<forall>i<length [0..<10]. selfDefineFrameTemplate tm ([0..<10] ! i) = Some (W ! i))"
    using assms(3) by (intro those_map_total selfDefineFrameTemplate_Some) simp_all
  then obtain W where
    w: "those (map (selfDefineFrameTemplate tm) [0..<10]) = Some W" "length W = 10"
    and wn: "\<forall>seq<10. selfDefineFrameTemplate tm seq = Some (W ! seq)"
    by auto
  obtain R G B where cp: "colorPlanes kc = (R, G, B)" by (cases "colorPlanes kc") auto
  from perKeyFrames_eq [OF cp] obtain F where f: "perKeyFrames kc = Some F" by blast
  have e: "selfDefineWriteFrames tm config = Some W"
    using w(1) assms(2) by (simp add: selfDefineWriteFrames_template)
  note s = applyPerKey_sent [OF assms(1) e f]
  show "\<exists>W F. length W = 10 \<and> (\<forall>seq<10. selfDefineFrameTemplate tm seq = Some (W ! seq))
          \<and> (\<forall>seq<10. \<exists>p.
                W ! seq = [0x13, 0x04, 0x0A, of_nat seq] @ p @ replicate (15 - length p) 0
                   @ [sum_list ([0x13, 0x04, 0x0A, of_nat seq] @ p @ replicate (15 - length p) 0)]
                \<and> (seq = 0 \<longrightarrow>
                      p = (CFG_TEMPLATE tm ! 0)[4 := 0x01, 10 := 0x00, 11 := 21, 13 := 0x01])
                \<and> (seq \<noteq> 0 \<longrightarrow> p = CFG_TEMPLATE tm ! seq))
          \<and> perKeyFrames kc = Some F
          \<and> fst (applyPerKey tm dev kc) = Done
          \<and> sent (snd (applyPerKey tm dev kc)) = sent dev @ [READ_FRAME] @ W @ F @ [SAVE_FRAME]"
  proof (rule exI [of _ W], rule exI [of _ F], intro conjI allI impI)
    show "length W = 10" by (rule w(2))
    show "selfDefineFrameTemplate tm seq = Some (W ! seq)" if "seq < 10" for seq
      using wn that by blast
    show "perKeyFrames kc = Some F" by (rule f)
    show "fst (applyPerKey tm dev kc) = Done" by (rule s(1))
    show "sent (snd (applyPerKey tm dev kc)) = sent dev @ [READ_FRAME] @ W @ F @ [SAVE_FRAME]"
      by (rule s(2))
  next
    fix seq :: nat
    assume q: "seq < 10"
    with wn have "selfDefineFrameTemplate tm seq = Some (W ! seq)" by blast
    with assms(3) q show "\<exists>p.
                W ! seq = [0x13, 0x04, 0x0A, of_nat seq] @ p @ replicate (15 - length p) 0
                   @ [sum_list ([0x13, 0x04, 0x0A, of_nat seq] @ p @ replicate (15 - length p) 0)]
                \<and> (seq = 0 \<longrightarrow>
                      p = (CFG_TEMPLATE tm ! 0)[4 := 0x01, 10 := 0x00, 11 := 21, 13 := 0x01])
                \<and> (seq \<noteq> 0 \<longrightarrow> p = CFG_TEMPLATE tm ! seq)"
      by (rule selfDefine_template_frame_bytes)
  qed
qed

lemma silentDevice_read:
  "readConfig silentDevice = Some (replicate 10 None, \<lparr>sent = [READ_FRAME], inbox = []\<rparr>)"
  by code_simp

theorem incomplete_read_witness:
  "\<not> gotConfig (replicate 10 None) \<and> wfTemplates exTemplates \<and> (3::int) \<in> EFFECTS
   \<and> setSleepTimer silentDevice 10 = (ReadError, \<lparr>sent = [READ_FRAME], inbox = []\<rparr>)
   \<and> fst (setEffect exTemplates silentDevice 3 exOptions) = Done
   \<and> length (sent (snd (setEffect exTemplates silentDevice 3 exOptions))) = 49
   \<and> sent (snd (setEffect exTemplates silentDevice 3 exOptions)) ! 1
       = [0x13, 0x04, 0x0A, 0x00, 0x0E, 0x00, 0x04, 0x47, 0x01, 0x00,
          0x00, 0x00, 0x00, 0x00, 0x00, 0x03, 0x00, 0x01, 0x00, 0x7F]
   \<and> sent (snd (setEffect exTemplates silentDevice 3 exOptions)) ! 2
       = [0x13, 0x04, 0x0A, 0x01, 0x0E, 0x00, 0x04, 0x47, 0x01, 0x00,
          0x00, 0x00, 0x00, 0x00, 0x00, 0x00, 0x00, 0x00, 0x00, 0x7C]
   \<and> fst (applyPerKey exTemplates silentDevice exKeyColors) = Done"
proof -
  have g: "\<not> gotConfig (replicate 10 None)" by code_simp
  have t: "wfTemplates exTemplates" by code_simp
  have e: "(3::int) \<in> EFFECTS" by (simp add: EFFECTS_def)
  note th = incomplete_read [OF silentDevice_read g t e, of 10 exOptions exKeyColors]
  from th have a: "setSleepTimer silentDevice 10 = (ReadError, \<lparr>sent = [READ_FRAME], inbox = []\<rparr>)"
    by (rule conjunct1)
  note eff = th [THEN conjunct2, THEN conjunct2, THEN conjunct1]
  note pk = th [THEN conjunct2, THEN conjunct2, THEN conjunct2]
  from pk have c: "fst (applyPerKey exTemplates silentDevice exKeyColors) = Done"
    by (elim exE conjE)
  have loc: "\<forall>off. effectTableLoc 3 \<noteq> Some (1, off)" by (simp add: effectTableLoc_def)
  have m: "(if colorRgb exOptions \<noteq> None \<or> colorful exOptions then (0x01::byte) else 0x03) = 0x01"
    by (simp add: exOptions_def)
  have t0: "(CFG_TEMPLATE exTemplates ! 0)[4 := 0x01, 10 := 0x00, 11 := u8 3, 13 := 0x01]
              = [0x0E, 0x00, 0x04, 0x47, 0x01, 0x00, 0x00, 0x00, 0x00, 0x00, 0x00, 0x03, 0x00, 0x01, 0x00]"
    by code_simp
  have t1: "CFG_TEMPLATE exTemplates ! 1
              = [0x0E, 0x00, 0x04, 0x47, 0x01, 0x00, 0x00, 0x00, 0x00, 0x00, 0x00, 0x00, 0x00, 0x00, 0x00]"
    by code_simp
  from eff show ?thesis
  proof (elim exE conjE)
    fix W P
    assume lw: "length W = 10"
      and bytes: "\<forall>seq<10. \<exists>p.
                W ! seq = [0x13, 0x04, 0x0A, of_nat seq] @ p @ replicate (15 - length p) 0
                   @ [sum_list ([0x13, 0x04, 0x0A, of_nat seq] @ p @ replicate (15 - length p) 0)]
                \<and> (seq = 0 \<longrightarrow>
                      p = (CFG_TEMPLATE exTemplates ! 0)[4 := 0x01, 10 := 0x00, 11 := u8 3,
                             13 := (if colorRgb exOptions \<noteq> None \<or> colorful exOptions then 0x01 else 0x03)])
                \<and> (seq \<noteq> 0 \<and> (\<forall>off. effectTableLoc 3 \<noteq> Some (seq, off)) \<longrightarrow>
                      p = CFG_TEMPLATE exTemplates ! seq)
                \<and> (\<forall>off. effectTableLoc 3 = Some (seq, off) \<longrightarrow>
                      p = (case brightness exOptions of
                             Some b \<Rightarrow> (CFG_TEMPLATE exTemplates ! seq)[off - 4 := u8 b]
                           | None \<Rightarrow> CFG_TEMPLATE exTemplates ! seq)
                          [off - 3 :=
                             encodeSpeedByte
                               (case speed exOptions of
                                  Some s \<Rightarrow> s
                                | None \<Rightarrow> fst (decodeSpeedByte (CFG_TEMPLATE exTemplates ! seq ! (off - 3))))
                               (if colorful exOptions then True
                                else (colorRgb exOptions = None
                                        \<and> snd (decodeSpeedByte (CFG_TEMPLATE exTemplates ! seq ! (off - 3)))))])"
      and pf: "paletteFrames exTemplates (colorRgb exOptions) = Some P"
      and b: "fst (setEffect exTemplates silentDevice 3 exOptions) = Done"
      and s: "sent (snd (setEffect exTemplates silentDevice 3 exOptions))
              = sent silentDevice @ [READ_FRAME] @ W @ P @ [SAVE_FRAME]"
    from paletteFrames_Some [OF t, of "colorRgb exOptions"] pf
    have lp: "length P = 37" by auto
    from s lw lp have l: "length (sent (snd (setEffect exTemplates silentDevice 3 exOptions))) = 49"
      by (simp add: silentDevice_def)
    from s lw have n1: "sent (snd (setEffect exTemplates silentDevice 3 exOptions)) ! 1 = W ! 0"
      and n2: "sent (snd (setEffect exTemplates silentDevice 3 exOptions)) ! 2 = W ! 1"
      by (simp_all add: silentDevice_def nth_append)
    from bytes have "\<exists>p.
                W ! 0 = [0x13, 0x04, 0x0A, of_nat 0] @ p @ replicate (15 - length p) 0
                   @ [sum_list ([0x13, 0x04, 0x0A, of_nat 0] @ p @ replicate (15 - length p) 0)]
                \<and> ((0::nat) = 0 \<longrightarrow>
                      p = (CFG_TEMPLATE exTemplates ! 0)[4 := 0x01, 10 := 0x00, 11 := u8 3,
                             13 := (if colorRgb exOptions \<noteq> None \<or> colorful exOptions then 0x01 else 0x03)])"
      by (elim allE [of _ 0]) (erule impE, simp, elim exE conjE, rule exI, rule conjI, assumption, assumption)
    then obtain p0 where "W ! 0 = [0x13, 0x04, 0x0A, of_nat 0] @ p0 @ replicate (15 - length p0) 0
                   @ [sum_list ([0x13, 0x04, 0x0A, of_nat 0] @ p0 @ replicate (15 - length p0) 0)]"
      and "p0 = [0x0E, 0x00, 0x04, 0x47, 0x01, 0x00, 0x00, 0x00, 0x00, 0x00, 0x00, 0x03, 0x00, 0x01, 0x00]"
      unfolding m t0 by blast
    then have w0: "W ! 0 = [0x13, 0x04, 0x0A, 0x00, 0x0E, 0x00, 0x04, 0x47, 0x01, 0x00,
          0x00, 0x00, 0x00, 0x00, 0x00, 0x03, 0x00, 0x01, 0x00, 0x7F]"
      by simp
    from bytes have "\<exists>p.
                W ! 1 = [0x13, 0x04, 0x0A, of_nat 1] @ p @ replicate (15 - length p) 0
                   @ [sum_list ([0x13, 0x04, 0x0A, of_nat 1] @ p @ replicate (15 - length p) 0)]
                \<and> ((1::nat) \<noteq> 0 \<and> (\<forall>off. effectTableLoc 3 \<noteq> Some (1, off)) \<longrightarrow>
                      p = CFG_TEMPLATE exTemplates ! 1)"
      by (elim allE [of _ 1]) (erule impE, simp, elim exE conjE, rule exI, rule conjI, assumption, assumption)
    then obtain p1 where "W ! 1 = [0x13, 0x04, 0x0A, of_nat 1] @ p1 @ replicate (15 - length p1) 0
                   @ [sum_list ([0x13, 0x04, 0x0A, of_nat 1] @ p1 @ replicate (15 - length p1) 0)]"
      and "p1 = [0x0E, 0x00, 0x04, 0x47, 0x01, 0x00, 0x00, 0x00, 0x00, 0x00, 0x00, 0x00, 0x00, 0x00, 0x00]"
      using loc unfolding t1 by blast
    then have w1: "W ! 1 = [0x13, 0x04, 0x0A, 0x01, 0x0E, 0x00, 0x04, 0x47, 0x01, 0x00,
          0x00, 0x00, 0x00, 0x00, 0x00, 0x00, 0x00, 0x00, 0x00, 0x7C]"
      by simp
    show ?thesis
      unfolding n1 n2 w0 w1 using g t e a b l c by simp
  qed
qed

end
